theory Spec2Isabelle
  imports Main "HOL-Library.Multiset" "HOL-Library.Char_ord" "HOL-Library.List_Lexorder"
begin

section \<open>Data model (db.ts, ai.ts)\<close>

text \<open>
  A JavaScript \<^verbatim>\<open>Date\<close> holds a time value: an integral number of milliseconds since the
  epoch, or NaN (an "Invalid Date", which \<^verbatim>\<open>new Date(s)\<close> yields for a string it cannot
  parse).
\<close>

datatype Date = Date int | InvalidDate

text \<open>\<^verbatim>\<open>Date.prototype.valueOf\<close>: the time value, \<open>None\<close> standing for NaN.\<close>

fun valueOf :: "Date \<Rightarrow> int option" where
  "valueOf (Date t) = Some t"
| "valueOf InvalidDate = None"

text \<open>
  \<^verbatim>\<open>interface DBMessage\<close> and \<^verbatim>\<open>interface DBSummary\<close> of db.ts. Both interfaces have
  fields \<^verbatim>\<open>id\<close> and \<^verbatim>\<open>tokensCount\<close>; the fields of the message carry the suffix \<open>_msg\<close>
  and those of the summary \<open>_sum\<close>. The parent references \<open>summaryId\<close> and \<open>parentId\<close>
  are strings, the string \<^verbatim>\<open>"NULL"\<close> standing for "no parent". Numbers are modelled as
  integers.
\<close>

record DBMessage =
  id_msg :: string
  createdAt :: Date
  userContent :: string
  assistantContent :: string
  tokensCount_msg :: int
  summaryId :: string

record DBSummary =
  id_sum :: string
  dateFrom :: Date
  dateTo :: Date
  content_sum :: string
  level_sum :: int
  tokensCount_sum :: int
  parentId :: string

text \<open>
  \<^verbatim>\<open>interface ChatMessage extends DBMessage { type: "message"; timestamp: Date }\<close> and
  \<^verbatim>\<open>interface ChatSummary extends DBSummary { type: "summary"; timestamp: Date }\<close> of
  ai.ts. The \<^verbatim>\<open>type\<close> tag of the union \<^verbatim>\<open>ChatItem\<close> is the constructor of the datatype.
\<close>

record ChatMessage = DBMessage +
  timestamp_msg :: Date

record ChatSummary = DBSummary +
  timestamp_sum :: Date

datatype ChatItem = Message ChatMessage | Summary ChatSummary

section \<open>The Compaction Selector (ai.ts, selectMessagesForSummary)\<close>

definition MIN_SUMMARY_TOKENS :: int where
  "MIN_SUMMARY_TOKENS = 4000"

text \<open>
  The two branches at the head of the loop body: \<^verbatim>\<open>currentLevel\<close> and \<^verbatim>\<open>currentTokens\<close>
  of an item. The third branch (\<^verbatim>\<open>throw new Error()\<close>) is for a value that is neither a
  message nor a summary, which the type \<^verbatim>\<open>ChatItem\<close> excludes.
\<close>

fun currentLevel :: "ChatItem \<Rightarrow> int" where
  "currentLevel (Message m) = 0"
| "currentLevel (Summary s) = level_sum s"

fun currentTokens :: "ChatItem \<Rightarrow> int" where
  "currentTokens (Message m) = tokensCount_msg m"
| "currentTokens (Summary s) = tokensCount_sum s"

text \<open>
  The \<^verbatim>\<open>for\<close> loop of selectMessagesForSummary, from \<open>index\<close> on, with the variables
  \<^verbatim>\<open>startIndex\<close>, \<^verbatim>\<open>level\<close> (both \<^verbatim>\<open>number | null\<close>) and \<^verbatim>\<open>tokens\<close>. It returns
  \<^verbatim>\<open>startIndex\<close> and \<^verbatim>\<open>endIndex\<close> as they are when the loop is left: by \<^verbatim>\<open>break\<close> with
  \<^verbatim>\<open>endIndex\<close> set, or at the end of the list with \<^verbatim>\<open>endIndex\<close> still null.
  \<^verbatim>\<open>Math.ceil(fullCount / 2)\<close> is \<open>(fullCount + 1) div 2\<close> on a natural number.
\<close>

function select_loop ::
  "ChatItem list \<Rightarrow> nat \<Rightarrow> nat option \<Rightarrow> int option \<Rightarrow> int \<Rightarrow> nat option \<times> nat option"
where
  "select_loop chat index startIndex level tokens =
     (if index < length chat then
        (let item = chat ! index;
             same = (Some (currentLevel item) = level);
             level' = (if same then level else Some (currentLevel item));
             tokens' = (if same then tokens + currentTokens item else currentTokens item);
             startIndex' = (if same then startIndex else Some index)
         in (case startIndex' of
               Some start \<Rightarrow>
                 if tokens' \<ge> MIN_SUMMARY_TOKENS * 2 then
                   (let fullCount = index - start + 1;
                        summaryCount = (fullCount + 1) div 2
                    in (Some start, Some (start + summaryCount)))
                 else select_loop chat (index + 1) startIndex' level' tokens'
             | None \<Rightarrow> select_loop chat (index + 1) startIndex' level' tokens'))
      else (startIndex, None))"
  by pat_completeness auto
termination
  by (relation "measure (\<lambda>(chat, index, startIndex, level, tokens). length chat - index)") auto

declare select_loop.simps [simp del]

text \<open>\<^verbatim>\<open>Array.prototype.slice(start, end)\<close> for \<open>0 \<le> start\<close> and \<open>0 \<le> end\<close>.\<close>

definition slice :: "'a list \<Rightarrow> nat \<Rightarrow> nat \<Rightarrow> 'a list" where
  "slice xs start end = take (end - start) (drop start xs)"

definition selectMessagesForSummary :: "ChatItem list \<Rightarrow> ChatItem list" where
  "selectMessagesForSummary chat =
     (case select_loop chat 0 None None 0 of
        (Some startIndex, Some endIndex) \<Rightarrow> slice chat startIndex endIndex
      | _ \<Rightarrow> [])"

subsection \<open>The selector as the specification words it\<close>

text \<open>
  The run that item \<open>i\<close> belongs to starts at \<open>runStart chat i\<close>: the scan starts a new run
  at every index whose level differs from its predecessor's. \<open>runSum chat i\<close> is the
  cumulative cost of that run up to and including item \<open>i\<close>.
\<close>

fun runStart :: "ChatItem list \<Rightarrow> nat \<Rightarrow> nat" where
  "runStart chat 0 = 0"
| "runStart chat (Suc i) =
     (if currentLevel (chat ! Suc i) = currentLevel (chat ! i) then runStart chat i else Suc i)"

definition runSum :: "ChatItem list \<Rightarrow> nat \<Rightarrow> int" where
  "runSum chat i = sum_list (map currentTokens (slice chat (runStart chat i) (Suc i)))"

text \<open>
  The first index at which the cumulative cost of the current run reaches \<open>2 * B\<close>, and
  the older half of the run scanned so far (rounded up).
\<close>

definition qualifying :: "ChatItem list \<Rightarrow> nat \<Rightarrow> bool" where
  "qualifying chat i = (runSum chat i \<ge> 2 * MIN_SUMMARY_TOKENS)"

definition select_spec :: "ChatItem list \<Rightarrow> ChatItem list" where
  "select_spec chat =
     (case find (qualifying chat) [0..<length chat] of
        None \<Rightarrow> []
      | Some i \<Rightarrow>
          (let len = i - runStart chat i + 1
           in slice chat (runStart chat i) (runStart chat i + (len + 1) div 2)))"

text \<open>
  The state of the loop when it reaches \<open>index\<close> without having stopped: before the first
  item nothing is set; afterwards the variables describe the run of item \<open>index - 1\<close>.
\<close>

definition loop_inv :: "ChatItem list \<Rightarrow> nat \<Rightarrow> nat option \<Rightarrow> int option \<Rightarrow> int \<Rightarrow> bool" where
  "loop_inv chat index startIndex level tokens =
     (case index of
        0 \<Rightarrow> startIndex = None \<and> level = None
      | Suc i \<Rightarrow> startIndex = Some (runStart chat i) \<and>
                 level = Some (currentLevel (chat ! i)) \<and> tokens = runSum chat i)"

definition found :: "ChatItem list \<Rightarrow> nat \<Rightarrow> nat option \<times> nat option" where
  "found chat i =
     (Some (runStart chat i), Some (runStart chat i + (i - runStart chat i + 1 + 1) div 2))"

section \<open>The environment: providers, runtime library, store faults\<close>

text \<open>
  A rejected promise or a thrown exception is a value of this type: \<^verbatim>\<open>new Error(msg)\<close>,
  the runtime's \<^verbatim>\<open>TypeError\<close> and \<^verbatim>\<open>RangeError\<close>, a failed HTTP request of axios, and
  the error of a failed IndexedDB request.
\<close>

datatype error = Error string | TypeError | RangeError | AxiosError string | DOMException string

text \<open>
  The interfaces of the requests and responses of the two endpoints. The temperatures the
  code sends are the numbers 1 and 0.
\<close>

datatype Role = System | User | Assistant | Developer

record OpenAIMessage =
  role :: Role
  name :: "string option"
  content :: string

record CompletionChoice =
  choice_message :: OpenAIMessage

record OpenAICompletion =
  choices :: "CompletionChoice list"

record ChatCompletionRequest =
  model :: string
  request_messages :: "OpenAIMessage list"
  temperature :: int

record Usage =
  prompt_tokens :: int
  total_tokens :: int

record EmbeddingResponse =
  usage :: Usage

text \<open>
  The two object stores of the database \<^verbatim>\<open>gpt_journal\<close>, both with key path \<^verbatim>\<open>id\<close>. A
  store is the list of its records in the order of their keys, which is the order a
  cursor visits them in. The keys are strings, which IndexedDB compares code unit by code
  unit; this is the lexicographic order of \<open>string\<close>.
\<close>

record DB =
  summaryStore :: "DBSummary list"
  messageStore :: "DBMessage list"

text \<open>The requests the code makes of IndexedDB; each may fail.\<close>

datatype idb_request =
    Open
  | Put_summary DBSummary
  | Put_message DBMessage
  | Clear_summary
  | Clear_message
  | Cursor_summary
  | Cursor_message

text \<open>
  Everything outside the repository that the code calls:
  \<^item> \<open>createChatCompletion\<close> and \<open>createTextEmbedding\<close>: the responses of the HTTP endpoints
    (\<open>Inl\<close> when axios rejects);
  \<^item> \<open>dateParse\<close>: \<^verbatim>\<open>new Date(string)\<close>; \<open>isoString\<close>: \<^verbatim>\<open>toISOString\<close> of a valid date;
    \<open>dateFormat\<close>: the \<^verbatim>\<open>format\<close> of date-fns with the pattern of formatTimestamp, on a
    valid date;
  \<^item> \<open>fault\<close>: whether a request to IndexedDB fails, given the contents the transaction sees;
  \<^item> \<open>engineSort\<close>: the order in which \<^verbatim>\<open>Array.prototype.sort\<close> of the JavaScript engine
    leaves an array when the comparator returns NaN for some pair of its items (ECMAScript
    leaves that order to the implementation);
  \<^item> the two system messages of the compactor, whose text is not ASCII.
\<close>

record env =
  createChatCompletion :: "ChatCompletionRequest \<Rightarrow> error + OpenAICompletion"
  createTextEmbedding :: "string \<Rightarrow> error + EmbeddingResponse"
  dateParse :: "string \<Rightarrow> Date"
  isoString :: "int \<Rightarrow> string"
  dateFormat :: "int \<Rightarrow> string"
  fault :: "DB \<Rightarrow> idb_request \<Rightarrow> error option"
  engineSort :: "(ChatItem \<Rightarrow> ChatItem \<Rightarrow> int option) \<Rightarrow> ChatItem list \<Rightarrow> ChatItem list"
  COMPRESS_SYSTEM_MESSAGE :: string
  COMPRESS_SYSTEM_MESSAGE_2 :: string

text \<open>
  \<^verbatim>\<open>format(dt, ...)\<close> of date-fns and \<^verbatim>\<open>dt.toISOString()\<close> both throw a RangeError on an
  Invalid Date.
\<close>

definition formatTimestamp :: "env \<Rightarrow> Date \<Rightarrow> error + string" where
  "formatTimestamp E dt = (case dt of Date t \<Rightarrow> Inr (dateFormat E t) | InvalidDate \<Rightarrow> Inl RangeError)"

definition toISOString :: "env \<Rightarrow> Date \<Rightarrow> error + string" where
  "toISOString E dt = (case dt of Date t \<Rightarrow> Inr (isoString E t) | InvalidDate \<Rightarrow> Inl RangeError)"

section \<open>The store (db.ts)\<close>

text \<open>
  \<^verbatim>\<open>IDBObjectStore.put\<close> on a store with a key path: the record takes the place of the record
  with the same key, if there is one, and its place in the order of the keys otherwise.
\<close>

fun put :: "('a \<Rightarrow> string) \<Rightarrow> 'a \<Rightarrow> 'a list \<Rightarrow> 'a list" where
  "put key v [] = [v]"
| "put key v (x # xs) =
     (if key v < key x then v # x # xs
      else if key v = key x then v # xs
      else x # put key v xs)"

text \<open>\<^verbatim>\<open>IDBObjectStore.get\<close>: the record with a given key.\<close>

definition lookup :: "('a \<Rightarrow> string) \<Rightarrow> string \<Rightarrow> 'a list \<Rightarrow> 'a option" where
  "lookup key k xs = find (\<lambda>x. key x = k) xs"

text \<open>The store after the records of a list have been put, in order.\<close>

definition put_all :: "('a \<Rightarrow> string) \<Rightarrow> 'a list \<Rightarrow> 'a list \<Rightarrow> 'a list" where
  "put_all key st vs = foldl (\<lambda>st v. put key v st) st vs"

text \<open>
  The two \<^verbatim>\<open>forEach\<close> loops of updateData (and the two \<^verbatim>\<open>for\<close> loops of
  importDataToIndexedDB): the put requests of one transaction, in order. The first request
  that fails ends the transaction.
\<close>

fun put_summaries :: "env \<Rightarrow> DB \<Rightarrow> DBSummary list \<Rightarrow> error + DB" where
  "put_summaries E db [] = Inr db"
| "put_summaries E db (summaryItem # rest) =
     (case fault E db (Put_summary summaryItem) of
        Some e \<Rightarrow> Inl e
      | None \<Rightarrow>
          put_summaries E (db\<lparr>summaryStore := put id_sum summaryItem (summaryStore db)\<rparr>) rest)"

fun put_messages :: "env \<Rightarrow> DB \<Rightarrow> DBMessage list \<Rightarrow> error + DB" where
  "put_messages E db [] = Inr db"
| "put_messages E db (messageItem # rest) =
     (case fault E db (Put_message messageItem) of
        Some e \<Rightarrow> Inl e
      | None \<Rightarrow>
          put_messages E (db\<lparr>messageStore := put id_msg messageItem (messageStore db)\<rparr>) rest)"

text \<open>
  A \<^verbatim>\<open>readwrite\<close> transaction of IndexedDB, as the platform defines it: the requests work
  on the contents the transaction sees; when one of them fails and the error is not
  handled (the code handles none), the transaction is aborted and none of its writes
  remains; otherwise it completes and all of them are in the database. The result is the
  outcome and the contents of the database afterwards.
\<close>

definition transaction :: "(DB \<Rightarrow> error + DB) \<Rightarrow> DB \<Rightarrow> (error + unit) \<times> DB" where
  "transaction requests db =
     (case requests db of
        Inl e \<Rightarrow> (Inl e, db)
      | Inr db' \<Rightarrow> (Inr (), db'))"

text \<open>
  updateData: one transaction over both stores, with the puts of the summaries and then
  those of the messages. The promise is rejected when the database cannot be opened
  (\<^verbatim>\<open>request.onerror\<close>) or a request of the transaction fails (\<^verbatim>\<open>transaction.onerror\<close>), and
  resolved when the transaction completes (\<^verbatim>\<open>transaction.oncomplete\<close>).
\<close>

definition updateData :: "env \<Rightarrow> DB \<Rightarrow> DBSummary list \<Rightarrow> DBMessage list \<Rightarrow> (error + unit) \<times> DB" where
  "updateData E db summaries messages =
     (case fault E db Open of
        Some e \<Rightarrow> (Inl e, db)
      | None \<Rightarrow>
          transaction
            (\<lambda>tx. case put_summaries E tx summaries of
                     Inl e \<Rightarrow> Inl e
                   | Inr tx1 \<Rightarrow> put_messages E tx1 messages)
            db)"

text \<open>
  getActiveMessages and getActiveSummaries: a cursor over the index on the parent
  reference, restricted to the key \<^verbatim>\<open>"NULL"\<close>; it visits the records with that parent
  reference in the order of their primary keys.
\<close>

definition getActiveMessages :: "env \<Rightarrow> DB \<Rightarrow> error + DBMessage list" where
  "getActiveMessages E db =
     (case fault E db Open of
        Some e \<Rightarrow> Inl e
      | None \<Rightarrow>
          (case fault E db Cursor_message of
             Some e \<Rightarrow> Inl e
           | None \<Rightarrow> Inr (filter (\<lambda>m. summaryId m = ''NULL'') (messageStore db))))"

definition getActiveSummaries :: "env \<Rightarrow> DB \<Rightarrow> error + DBSummary list" where
  "getActiveSummaries E db =
     (case fault E db Open of
        Some e \<Rightarrow> Inl e
      | None \<Rightarrow>
          (case fault E db Cursor_summary of
             Some e \<Rightarrow> Inl e
           | None \<Rightarrow> Inr (filter (\<lambda>s. parentId s = ''NULL'') (summaryStore db))))"

section \<open>The interchange document (db.ts)\<close>

text \<open>
  \<^verbatim>\<open>interface ImportedMessage\<close>, \<^verbatim>\<open>ImportedSummary\<close> and \<^verbatim>\<open>ImportedData\<close>: the timestamps are
  strings, a parent reference is a string or \<^verbatim>\<open>null\<close>. The fields shared by the two
  record kinds carry the suffixes \<open>_im\<close> and \<open>_is\<close>; the two arrays under \<^verbatim>\<open>data\<close> are
  the fields \<open>data_message\<close> and \<open>data_summary\<close>.
\<close>

record ImportedMessage =
  id_im :: string
  created_at :: string
  user_content :: string
  assistant_content :: string
  tokens_count_im :: int
  summary_id :: "string option"

record ImportedSummary =
  id_is :: string
  date_from :: string
  date_to :: string
  content_is :: string
  level_is :: int
  tokens_count_is :: int
  parent_id :: "string option"

record ImportedData =
  version :: string
  data_message :: "ImportedMessage list"
  data_summary :: "ImportedSummary list"

text \<open>The operator \<^verbatim>\<open>x ?? "NULL"\<close> on a nullable string.\<close>

definition nullish :: "string option \<Rightarrow> string \<Rightarrow> string" where
  "nullish x d = (case x of None \<Rightarrow> d | Some v \<Rightarrow> v)"

definition convertMessage :: "env \<Rightarrow> ImportedMessage \<Rightarrow> DBMessage" where
  "convertMessage E msg =
     \<lparr>id_msg = id_im msg,
      createdAt = dateParse E (created_at msg),
      userContent = user_content msg,
      assistantContent = assistant_content msg,
      tokensCount_msg = tokens_count_im msg,
      summaryId = nullish (summary_id msg) ''NULL''\<rparr>"

definition convertSummary :: "env \<Rightarrow> ImportedSummary \<Rightarrow> DBSummary" where
  "convertSummary E sm =
     \<lparr>id_sum = id_is sm,
      dateFrom = dateParse E (date_from sm),
      dateTo = dateParse E (date_to sm),
      content_sum = content_is sm,
      level_sum = level_is sm,
      tokensCount_sum = tokens_count_is sm,
      parentId = nullish (parent_id sm) ''NULL''\<rparr>"

definition convertImportedData :: "env \<Rightarrow> ImportedData \<Rightarrow> DBMessage list \<times> DBSummary list" where
  "convertImportedData E importedData =
     (let dbMessages = map (convertMessage E) (data_message importedData);
          dbSummaries = map (convertSummary E) (data_summary importedData)
      in (dbMessages, dbSummaries))"

text \<open>
  importDataToIndexedDB: one transaction over both stores, which clears the two stores and
  then puts the converted records, summaries first. Each request is awaited, and the
  first one that fails rejects the promise.
\<close>

definition importDataToIndexedDB :: "env \<Rightarrow> DB \<Rightarrow> ImportedData \<Rightarrow> (error + unit) \<times> DB" where
  "importDataToIndexedDB E db importedData =
     (case convertImportedData E importedData of
        (dbMessages, dbSummaries) \<Rightarrow>
          (case fault E db Open of
             Some e \<Rightarrow> (Inl e, db)
           | None \<Rightarrow>
               transaction
                 (\<lambda>tx. case fault E tx Clear_summary of
                          Some e \<Rightarrow> Inl e
                        | None \<Rightarrow>
                            (let tx1 = tx\<lparr>summaryStore := []\<rparr>
                             in (case fault E tx1 Clear_message of
                                   Some e \<Rightarrow> Inl e
                                 | None \<Rightarrow>
                                     (let tx2 = tx1\<lparr>messageStore := []\<rparr>
                                      in (case put_summaries E tx2 dbSummaries of
                                            Inl e \<Rightarrow> Inl e
                                          | Inr tx3 \<Rightarrow> put_messages E tx3 dbMessages)))))
                 db))"

text \<open>
  The bodies of the two cursor loops of exportDataFromIndexedDB. \<^verbatim>\<open>toISOString\<close> throws on
  an Invalid Date, which ends the export.
\<close>

definition exportSummary :: "env \<Rightarrow> DBSummary \<Rightarrow> error + ImportedSummary" where
  "exportSummary E summary =
     (case toISOString E (dateFrom summary) of
        Inl e \<Rightarrow> Inl e
      | Inr from \<Rightarrow>
          (case toISOString E (dateTo summary) of
             Inl e \<Rightarrow> Inl e
           | Inr to \<Rightarrow>
               Inr \<lparr>id_is = id_sum summary,
                    date_from = from,
                    date_to = to,
                    content_is = content_sum summary,
                    level_is = level_sum summary,
                    tokens_count_is = tokensCount_sum summary,
                    parent_id =
                      (if parentId summary \<noteq> ''NULL'' then Some (parentId summary) else None)\<rparr>))"

definition exportMessage :: "env \<Rightarrow> DBMessage \<Rightarrow> error + ImportedMessage" where
  "exportMessage E message =
     (case toISOString E (createdAt message) of
        Inl e \<Rightarrow> Inl e
      | Inr created \<Rightarrow>
          Inr \<lparr>id_im = id_msg message,
               created_at = created,
               user_content = userContent message,
               assistant_content = assistantContent message,
               tokens_count_im = tokensCount_msg message,
               summary_id =
                 (if summaryId message \<noteq> ''NULL'' then Some (summaryId message) else None)\<rparr>)"

text \<open>A loop that pushes the result of \<open>f\<close> for every element, and ends at the first throw.\<close>

fun traverse :: "('a \<Rightarrow> error + 'b) \<Rightarrow> 'a list \<Rightarrow> error + 'b list" where
  "traverse f [] = Inr []"
| "traverse f (x # xs) =
     (case f x of
        Inl e \<Rightarrow> Inl e
      | Inr y \<Rightarrow> (case traverse f xs of Inl e \<Rightarrow> Inl e | Inr ys \<Rightarrow> Inr (y # ys)))"

definition exportDataFromIndexedDB :: "env \<Rightarrow> DB \<Rightarrow> error + ImportedData" where
  "exportDataFromIndexedDB E db =
     (case fault E db Open of
        Some e \<Rightarrow> Inl e
      | None \<Rightarrow>
          (case fault E db Cursor_summary of
             Some e \<Rightarrow> Inl e
           | None \<Rightarrow>
               (case traverse (exportSummary E) (summaryStore db) of
                  Inl e \<Rightarrow> Inl e
                | Inr summaries \<Rightarrow>
                    (case fault E db Cursor_message of
                       Some e \<Rightarrow> Inl e
                     | None \<Rightarrow>
                         (case traverse (exportMessage E) (messageStore db) of
                            Inl e \<Rightarrow> Inl e
                          | Inr messages \<Rightarrow>
                              Inr \<lparr>version = ''1'',
                                   data_message = messages,
                                   data_summary = summaries\<rparr>)))))"

subsection \<open>What a round trip makes of a document, for stating its properties\<close>

text \<open>
  The canonical form of a timestamp string: the ISO string of the date it parses to. A
  record of a document as it comes back from the store: the timestamps in canonical form,
  and the parent reference \<^verbatim>\<open>"NULL"\<close> turned into \<^verbatim>\<open>null\<close>. A document is well formed
  when the ids are unique within each collection and every timestamp parses to a valid
  date. The runtime's \<^verbatim>\<open>toISOString\<close> and \<^verbatim>\<open>new Date\<close> round-trip on the timestamps of a
  document when parsing the ISO string of each of its dates gives that date again.
\<close>

definition canonical :: "env \<Rightarrow> string \<Rightarrow> string" where
  "canonical E s = (case dateParse E s of Date t \<Rightarrow> isoString E t | InvalidDate \<Rightarrow> s)"

definition reexported_message :: "env \<Rightarrow> ImportedMessage \<Rightarrow> ImportedMessage" where
  "reexported_message E msg =
     msg\<lparr>created_at := canonical E (created_at msg),
         summary_id := (if summary_id msg = Some ''NULL'' then None else summary_id msg)\<rparr>"

definition reexported_summary :: "env \<Rightarrow> ImportedSummary \<Rightarrow> ImportedSummary" where
  "reexported_summary E sm =
     sm\<lparr>date_from := canonical E (date_from sm),
        date_to := canonical E (date_to sm),
        parent_id := (if parent_id sm = Some ''NULL'' then None else parent_id sm)\<rparr>"

definition timestamps :: "ImportedData \<Rightarrow> string list" where
  "timestamps doc =
     map created_at (data_message doc) @ map date_from (data_summary doc) @
     map date_to (data_summary doc)"

definition well_formed :: "env \<Rightarrow> ImportedData \<Rightarrow> bool" where
  "well_formed E doc =
     (distinct (map id_im (data_message doc)) \<and>
      distinct (map id_is (data_summary doc)) \<and>
      (\<forall>s \<in> set (timestamps doc). dateParse E s \<noteq> InvalidDate))"

definition dates_round_trip :: "env \<Rightarrow> ImportedData \<Rightarrow> bool" where
  "dates_round_trip E doc =
     (\<forall>s \<in> set (timestamps doc). \<forall>t. dateParse E s = Date t \<longrightarrow>
        dateParse E (isoString E t) = Date t)"

section \<open>The Chat Assembler (ai.ts, getChat)\<close>

fun item_timestamp :: "ChatItem \<Rightarrow> Date" where
  "item_timestamp (Message m) = timestamp_msg m"
| "item_timestamp (Summary s) = timestamp_sum s"

text \<open>
  The comparator \<^verbatim>\<open>(a, b) => a.timestamp.valueOf() - b.timestamp.valueOf()\<close>; \<open>None\<close> is
  NaN, the difference when one of the dates is invalid.
\<close>

definition compareFn :: "ChatItem \<Rightarrow> ChatItem \<Rightarrow> int option" where
  "compareFn a b =
     (case (valueOf (item_timestamp a), valueOf (item_timestamp b)) of
        (Some x, Some y) \<Rightarrow> Some (x - y)
      | _ \<Rightarrow> None)"

text \<open>
  \<^verbatim>\<open>Array.prototype.sort(cmp)\<close>. ECMAScript requires the sort to be stable. Where the
  comparator is consistent on the items of the array, which for \<open>compareFn\<close> means that it
  returns NaN for no pair of them, this determines the result: the stable insertion sort
  computes it, in which an element moves behind exactly the elements the comparator puts
  strictly before it. Where the comparator returns NaN for some pair, the order is the
  engine's.
\<close>

fun insert_sorted :: "('a \<Rightarrow> 'a \<Rightarrow> int option) \<Rightarrow> 'a \<Rightarrow> 'a list \<Rightarrow> 'a list" where
  "insert_sorted cmp x [] = [x]"
| "insert_sorted cmp x (y # ys) =
     (case cmp x y of
        Some v \<Rightarrow> if v > 0 then y # insert_sorted cmp x ys else x # y # ys
      | None \<Rightarrow> x # y # ys)"

definition array_sort :: "('a \<Rightarrow> 'a \<Rightarrow> int option) \<Rightarrow> 'a list \<Rightarrow> 'a list" where
  "array_sort cmp xs = foldr (insert_sorted cmp) xs []"

definition consistent_on :: "('a \<Rightarrow> 'a \<Rightarrow> int option) \<Rightarrow> 'a list \<Rightarrow> bool" where
  "consistent_on cmp xs = list_all (\<lambda>a. list_all (\<lambda>b. cmp a b \<noteq> None) xs) xs"

definition Array_prototype_sort ::
  "env \<Rightarrow> (ChatItem \<Rightarrow> ChatItem \<Rightarrow> int option) \<Rightarrow> ChatItem list \<Rightarrow> ChatItem list"
where
  "Array_prototype_sort E cmp xs =
     (if consistent_on cmp xs then array_sort cmp xs else engineSort E cmp xs)"

text \<open>
  One engine: the sort of V8, the engine of Chrome and Node, for an array shorter than 64
  items. It reads the comparator's NaN as 0. The longest run at the start of the array
  that is ascending, or strictly descending and then reversed, counts as sorted; each
  later item is put in among the items before it by a binary search. (V8 cuts an array
  of 64 items or more into several such runs, which it merges; the examples stay below
  that.)
\<close>

definition order_v8 :: "('a \<Rightarrow> 'a \<Rightarrow> int option) \<Rightarrow> 'a \<Rightarrow> 'a \<Rightarrow> int" where
  "order_v8 cmp a b = (case cmp a b of Some v \<Rightarrow> v | None \<Rightarrow> 0)"

fun run_rest :: "('a \<Rightarrow> 'a \<Rightarrow> int option) \<Rightarrow> bool \<Rightarrow> 'a \<Rightarrow> 'a list \<Rightarrow> nat" where
  "run_rest cmp isDescending previousElement [] = 0"
| "run_rest cmp isDescending previousElement (currentElement # rest) =
     (let order = order_v8 cmp currentElement previousElement in
      if (if isDescending then order \<ge> 0 else order < 0) then 0
      else Suc (run_rest cmp isDescending currentElement rest))"

definition CountAndMakeRun :: "('a \<Rightarrow> 'a \<Rightarrow> int option) \<Rightarrow> 'a list \<Rightarrow> 'a list \<times> nat" where
  "CountAndMakeRun cmp workArray =
     (case workArray of
        elementHigh # elementLow # rest \<Rightarrow>
          (let isDescending = order_v8 cmp elementLow elementHigh < 0;
               runLength = 2 + run_rest cmp isDescending elementLow rest
           in (if isDescending
               then rev (take runLength workArray) @ drop runLength workArray
               else workArray, runLength))
      | _ \<Rightarrow> (workArray, length workArray))"

function binary_search ::
  "('a \<Rightarrow> 'a \<Rightarrow> int option) \<Rightarrow> 'a \<Rightarrow> 'a list \<Rightarrow> nat \<Rightarrow> nat \<Rightarrow> nat"
where
  "binary_search cmp pivot workArray left right =
     (if left < right then
        (let mid = left + (right - left) div 2 in
         if order_v8 cmp pivot (workArray ! mid) < 0
         then binary_search cmp pivot workArray left mid
         else binary_search cmp pivot workArray (mid + 1) right)
      else left)"
  by pat_completeness auto
termination
  by (relation "measure (\<lambda>(cmp, pivot, workArray, left, right). right - left)") auto

declare binary_search.simps [simp del]

definition insert_pivot :: "('a \<Rightarrow> 'a \<Rightarrow> int option) \<Rightarrow> nat \<Rightarrow> 'a list \<Rightarrow> 'a list" where
  "insert_pivot cmp start workArray =
     (let pivot = workArray ! start;
          left = binary_search cmp pivot workArray 0 start
      in take left workArray @ pivot # take (start - left) (drop left workArray) @
         drop (start + 1) workArray)"

definition BinaryInsertionSort :: "('a \<Rightarrow> 'a \<Rightarrow> int option) \<Rightarrow> nat \<Rightarrow> 'a list \<Rightarrow> 'a list" where
  "BinaryInsertionSort cmp startArg workArray =
     fold (insert_pivot cmp) [startArg..<length workArray] workArray"

definition ArrayTimSort :: "('a \<Rightarrow> 'a \<Rightarrow> int option) \<Rightarrow> 'a list \<Rightarrow> 'a list" where
  "ArrayTimSort cmp xs =
     (if length xs < 2 then xs
      else (let (workArray, currentRunLength) = CountAndMakeRun cmp xs
            in BinaryInsertionSort cmp currentRunLength workArray))"

definition toChatMessage :: "DBMessage \<Rightarrow> ChatMessage" where
  "toChatMessage message =
     \<lparr>id_msg = id_msg message,
      createdAt = createdAt message,
      userContent = userContent message,
      assistantContent = assistantContent message,
      tokensCount_msg = tokensCount_msg message,
      summaryId = summaryId message,
      timestamp_msg = createdAt message\<rparr>"

definition toChatSummary :: "DBSummary \<Rightarrow> ChatSummary" where
  "toChatSummary summary =
     \<lparr>id_sum = id_sum summary,
      dateFrom = dateFrom summary,
      dateTo = dateTo summary,
      content_sum = content_sum summary,
      level_sum = level_sum summary,
      tokensCount_sum = tokensCount_sum summary,
      parentId = parentId summary,
      timestamp_sum = dateTo summary\<rparr>"

definition getChat :: "env \<Rightarrow> DB \<Rightarrow> error + ChatItem list" where
  "getChat E db =
     (case getActiveMessages E db of
        Inl e \<Rightarrow> Inl e
      | Inr messages \<Rightarrow>
          (case getActiveSummaries E db of
             Inl e \<Rightarrow> Inl e
           | Inr summaries \<Rightarrow>
               (let messageItems = map (\<lambda>message. Message (toChatMessage message)) messages;
                    summaryItems = map (\<lambda>summary. Summary (toChatSummary summary)) summaries
                in Inr (Array_prototype_sort E compareFn (messageItems @ summaryItems)))))"

text \<open>The time value of the timestamp of an item, for stating that a chat is in order.\<close>

definition timeValue :: "ChatItem \<Rightarrow> int" where
  "timeValue item = (case item_timestamp item of Date t \<Rightarrow> t | InvalidDate \<Rightarrow> 0)"

section \<open>The Completion Orchestrator (ai.ts, createCompletion)\<close>

definition CHAT_SYSTEM_PROPMT :: string where
  "CHAT_SYSTEM_PROPMT = ''You are ChatGPT, a supportive and empathetic assistant helping the user to maintain a personal journal. Your role is to encourage self-reflection, provide constructive feedback, and prompt the user with questions that deepen their understanding of their thoughts and emotions. Ensure confidentiality and create a safe, non-judgmental space for expression. Guide the user towards clarity and personal growth by suggesting insights and encouraging positive, actionable steps.''"

text \<open>The separator \<^verbatim>\<open>\n\n\<close> of the template strings.\<close>

definition nn :: string where
  "nn = [CHR 0x0A, CHR 0x0A]"

text \<open>\<^verbatim>\<open>DBMessage\<close> and \<^verbatim>\<open>DBSummary\<close> as the supertypes of the chat items.\<close>

definition toDBMessage :: "ChatMessage \<Rightarrow> DBMessage" where
  "toDBMessage item =
     \<lparr>id_msg = id_msg item,
      createdAt = createdAt item,
      userContent = userContent item,
      assistantContent = assistantContent item,
      tokensCount_msg = tokensCount_msg item,
      summaryId = summaryId item\<rparr>"

definition toDBSummary :: "ChatSummary \<Rightarrow> DBSummary" where
  "toDBSummary item =
     \<lparr>id_sum = id_sum item,
      dateFrom = dateFrom item,
      dateTo = dateTo item,
      content_sum = content_sum item,
      level_sum = level_sum item,
      tokensCount_sum = tokensCount_sum item,
      parentId = parentId item\<rparr>"

text \<open>
  The \<^verbatim>\<open>for\<close> loop of createCompletion: the entries of the transcript for the items of the
  chat. formatTimestamp may throw, which ends the loop.
\<close>

fun chat_entries :: "env \<Rightarrow> ChatItem list \<Rightarrow> error + OpenAIMessage list" where
  "chat_entries E [] = Inr []"
| "chat_entries E (Message item # rest) =
     (case formatTimestamp E (createdAt item) of
        Inl e \<Rightarrow> Inl e
      | Inr ts \<Rightarrow>
          (let meta = ''['' @ ts @ '']''
           in (case chat_entries E rest of
                 Inl e \<Rightarrow> Inl e
               | Inr entries \<Rightarrow>
                   Inr (\<lparr>role = User, name = None, content = meta @ nn @ userContent item\<rparr> #
                        \<lparr>role = Assistant, name = None, content = assistantContent item\<rparr> #
                        entries))))"
| "chat_entries E (Summary item # rest) =
     (case formatTimestamp E (dateFrom item) of
        Inl e \<Rightarrow> Inl e
      | Inr tsFrom \<Rightarrow>
          (case formatTimestamp E (dateTo item) of
             Inl e \<Rightarrow> Inl e
           | Inr tsTo \<Rightarrow>
               (let meta = ''['' @ tsFrom @ '' - '' @ tsTo @ '']''
                in (case chat_entries E rest of
                      Inl e \<Rightarrow> Inl e
                    | Inr entries \<Rightarrow>
                        Inr (\<lparr>role = Developer, name = Some ''summary'',
                               content = meta @ nn @ content_sum item\<rparr> #
                             entries)))))"

text \<open>
  createCompletion. \<open>newId\<close> is the result of \<^verbatim>\<open>uuidv4().toString()\<close>. Reading
  \<^verbatim>\<open>resp.choices[0].message\<close> of a response without choices is a TypeError. The result is
  the outcome of the promise and the contents of the database afterwards.
\<close>

definition createCompletion ::
  "env \<Rightarrow> string \<Rightarrow> DB \<Rightarrow> ChatItem list \<Rightarrow> string \<Rightarrow> Date \<Rightarrow> (error + ChatItem list) \<times> DB"
where
  "createCompletion E newId db chat text timestamp =
     (case chat_entries E chat of
        Inl e \<Rightarrow> (Inl e, db)
      | Inr entries \<Rightarrow>
          (case formatTimestamp E timestamp of
             Inl e \<Rightarrow> (Inl e, db)
           | Inr ts \<Rightarrow>
               (let meta = ''['' @ ts @ '']'';
                    messages =
                      [\<lparr>role = System, name = None, content = CHAT_SYSTEM_PROPMT\<rparr>] @ entries @
                      [\<lparr>role = User, name = None, content = meta @ nn @ text\<rparr>]
                in (case createChatCompletion E
                          \<lparr>model = ''gpt-4o'', request_messages = messages, temperature = 1\<rparr> of
                      Inl e \<Rightarrow> (Inl e, db)
                    | Inr resp \<Rightarrow>
                        (case choices resp of
                           [] \<Rightarrow> (Inl TypeError, db)
                         | choice # _ \<Rightarrow>
                             (let respText = content (choice_message choice)
                              in (case createTextEmbedding E (text @ nn @ respText) of
                                    Inl e \<Rightarrow> (Inl e, db)
                                  | Inr embedding \<Rightarrow>
                                      (let tokens = total_tokens (usage embedding);
                                           newMessage =
                                             \<lparr>id_msg = newId,
                                              createdAt = timestamp,
                                              userContent = text,
                                              assistantContent = respText,
                                              tokensCount_msg = tokens,
                                              summaryId = ''NULL'',
                                              timestamp_msg = timestamp\<rparr>
                                       in (case updateData E db [] [toDBMessage newMessage] of
                                             (Inl e, db') \<Rightarrow> (Inl e, db')
                                           | (Inr u, db') \<Rightarrow>
                                               (Inr (chat @ [Message newMessage]), db'))))))))))"

section \<open>The Compactor (ai.ts, compressMessages and replaceMessages)\<close>

text \<open>
  The \<^verbatim>\<open>for\<close> loop of compressMessages, with the variables \<^verbatim>\<open>messagesText\<close>,
  \<^verbatim>\<open>dateFrom\<close>, \<^verbatim>\<open>dateTo\<close> and \<^verbatim>\<open>level\<close> (the last three \<^verbatim>\<open>null\<close> at first).
\<close>

fun compress_loop ::
  "env \<Rightarrow> ChatItem list \<Rightarrow> string list \<times> Date option \<times> Date option \<times> int option \<Rightarrow>
   error + string list \<times> Date option \<times> Date option \<times> int option"
where
  "compress_loop E [] vars = Inr vars"
| "compress_loop E (Message message # rest) (messagesText, dFrom, dTo, level) =
     (case formatTimestamp E (createdAt message) of
        Inl e \<Rightarrow> Inl e
      | Inr ts \<Rightarrow>
          (let userMeta = ''[USER, '' @ ts @ '']'';
               userStr = userMeta @ nn @ userContent message;
               assistantMeta = ''[ASSISTANT, '' @ ts @ '']'';
               assistantStr = assistantMeta @ nn @ assistantContent message;
               fullStr = userStr @ nn @ assistantStr
           in compress_loop E rest
                (messagesText @ [fullStr],
                 Some (case dFrom of Some d \<Rightarrow> d | None \<Rightarrow> createdAt message),
                 Some (createdAt message),
                 Some 0)))"
| "compress_loop E (Summary message # rest) (messagesText, dFrom, dTo, level) =
     (case formatTimestamp E (dateFrom message) of
        Inl e \<Rightarrow> Inl e
      | Inr tsFrom \<Rightarrow>
          (case formatTimestamp E (dateTo message) of
             Inl e \<Rightarrow> Inl e
           | Inr tsTo \<Rightarrow>
               (let meta = ''[SUMMARY, '' @ tsFrom @ '' - '' @ tsTo @ '']'';
                    fullStr = meta @ nn @ content_sum message
                in compress_loop E rest
                     (messagesText @ [fullStr],
                      Some (case dFrom of Some d \<Rightarrow> d | None \<Rightarrow> dateFrom message),
                      Some (dateTo message),
                      Some (level_sum message)))))"

text \<open>\<^verbatim>\<open>Array.prototype.join(sep)\<close> on strings.\<close>

fun join :: "string \<Rightarrow> string list \<Rightarrow> string" where
  "join sep [] = []"
| "join sep [x] = x"
| "join sep (x # y # ys) = x @ sep @ join sep (y # ys)"

text \<open>
  compressMessages. \<open>newId\<close> is the result of \<^verbatim>\<open>uuidv4().toString()\<close>. The only check after
  the loop is that the three variables are set.
\<close>

definition compressMessages :: "env \<Rightarrow> string \<Rightarrow> ChatItem list \<Rightarrow> error + ChatSummary" where
  "compressMessages E newId messages =
     (case compress_loop E messages ([], None, None, None) of
        Inl e \<Rightarrow> Inl e
      | Inr (messagesText, Some dFrom, Some dTo, Some level) \<Rightarrow>
          (case createChatCompletion E
                  \<lparr>model = ''gpt-4o'',
                   request_messages =
                     [\<lparr>role = System, name = None, content = COMPRESS_SYSTEM_MESSAGE E\<rparr>,
                      \<lparr>role = User, name = None, content = join nn messagesText\<rparr>,
                      \<lparr>role = System, name = None, content = COMPRESS_SYSTEM_MESSAGE_2 E\<rparr>],
                   temperature = 0\<rparr> of
             Inl e \<Rightarrow> Inl e
           | Inr result \<Rightarrow>
               (case choices result of
                  [] \<Rightarrow> Inl TypeError
                | choice # _ \<Rightarrow>
                    (let resultText = content (choice_message choice)
                     in (case createTextEmbedding E resultText of
                           Inl e \<Rightarrow> Inl e
                         | Inr embedding \<Rightarrow>
                             (let resultTokens = total_tokens (usage embedding)
                              in Inr \<lparr>id_sum = newId,
                                      dateFrom = dFrom,
                                      dateTo = dTo,
                                      content_sum = resultText,
                                      level_sum = level + 1,
                                      tokensCount_sum = resultTokens,
                                      parentId = ''NULL'',
                                      timestamp_sum = dTo\<rparr>)))))
      | Inr _ \<Rightarrow> Inl (Error ''Empty summary''))"

text \<open>
  The loop of replaceMessages: the records to write for the items, with the parent
  reference set to the id of the summary. (The object written by
  \<^verbatim>\<open>{ ...item, summaryId: summary.id }\<close> also has the properties \<^verbatim>\<open>type\<close> and \<^verbatim>\<open>timestamp\<close> of
  the item; no reader of the store looks at them.)
\<close>

fun reparented_messages :: "ChatItem list \<Rightarrow> string \<Rightarrow> DBMessage list" where
  "reparented_messages [] sid = []"
| "reparented_messages (Message item # rest) sid =
     (toDBMessage item)\<lparr>summaryId := sid\<rparr> # reparented_messages rest sid"
| "reparented_messages (Summary item # rest) sid = reparented_messages rest sid"

fun reparented_summaries :: "ChatItem list \<Rightarrow> string \<Rightarrow> DBSummary list" where
  "reparented_summaries [] sid = []"
| "reparented_summaries (Message item # rest) sid = reparented_summaries rest sid"
| "reparented_summaries (Summary item # rest) sid =
     (toDBSummary item)\<lparr>parentId := sid\<rparr> # reparented_summaries rest sid"

definition replaceMessages :: "env \<Rightarrow> DB \<Rightarrow> ChatItem list \<Rightarrow> ChatSummary \<Rightarrow> (error + unit) \<times> DB" where
  "replaceMessages E db items summary =
     (let messages = reparented_messages items (id_sum summary);
          summaries = [toDBSummary summary] @ reparented_summaries items (id_sum summary)
      in updateData E db summaries messages)"

definition compressChat :: "env \<Rightarrow> string \<Rightarrow> DB \<Rightarrow> ChatItem list \<Rightarrow> (error + unit) \<times> DB" where
  "compressChat E newId db chat =
     (let messagesForSummary = selectMessagesForSummary chat
      in if length messagesForSummary = 0 then (Inr (), db)
         else (case compressMessages E newId messagesForSummary of
                 Inl e \<Rightarrow> (Inl e, db)
               | Inr summary \<Rightarrow> replaceMessages E db messagesForSummary summary))"

subsection \<open>What the compactor computes, for stating its properties\<close>

text \<open>
  The start of the span of an item and its ordering timestamp, as compressMessages reads
  them; the dates of an item that compressMessages formats; the transcript entry
  \<^verbatim>\<open>fullStr\<close> of an item; the request sent to the completion endpoint; and the summary
  returned for a text and a token count.
\<close>

fun spanStart :: "ChatItem \<Rightarrow> Date" where
  "spanStart (Message m) = createdAt m"
| "spanStart (Summary s) = dateFrom s"

fun orderingTimestamp :: "ChatItem \<Rightarrow> Date" where
  "orderingTimestamp (Message m) = createdAt m"
| "orderingTimestamp (Summary s) = dateTo s"

fun dates_valid :: "ChatItem \<Rightarrow> bool" where
  "dates_valid (Message m) = (createdAt m \<noteq> InvalidDate)"
| "dates_valid (Summary s) = (dateFrom s \<noteq> InvalidDate \<and> dateTo s \<noteq> InvalidDate)"

definition formatted :: "env \<Rightarrow> Date \<Rightarrow> string" where
  "formatted E dt = (case dt of Date t \<Rightarrow> dateFormat E t | InvalidDate \<Rightarrow> [])"

fun fullStr :: "env \<Rightarrow> ChatItem \<Rightarrow> string" where
  "fullStr E (Message message) =
     (''[USER, '' @ formatted E (createdAt message) @ '']'' @ nn @ userContent message) @ nn @
     (''[ASSISTANT, '' @ formatted E (createdAt message) @ '']'' @ nn @ assistantContent message)"
| "fullStr E (Summary message) =
     (''[SUMMARY, '' @ formatted E (dateFrom message) @ '' - '' @
        formatted E (dateTo message) @ '']'') @ nn @ content_sum message"

definition compress_request :: "env \<Rightarrow> ChatItem list \<Rightarrow> ChatCompletionRequest" where
  "compress_request E items =
     \<lparr>model = ''gpt-4o'',
      request_messages =
        [\<lparr>role = System, name = None, content = COMPRESS_SYSTEM_MESSAGE E\<rparr>,
         \<lparr>role = User, name = None, content = join nn (map (fullStr E) items)\<rparr>,
         \<lparr>role = System, name = None, content = COMPRESS_SYSTEM_MESSAGE_2 E\<rparr>],
      temperature = 0\<rparr>"

definition summary_of ::
  "string \<Rightarrow> ChatItem list \<Rightarrow> string \<Rightarrow> int \<Rightarrow> ChatSummary" where
  "summary_of newId items resultText resultTokens =
     \<lparr>id_sum = newId,
      dateFrom = spanStart (hd items),
      dateTo = orderingTimestamp (last items),
      content_sum = resultText,
      level_sum = currentLevel (last items) + 1,
      tokensCount_sum = resultTokens,
      parentId = ''NULL'',
      timestamp_sum = orderingTimestamp (last items)\<rparr>"

section \<open>Sending a message (ai.ts, usePostMessage; App.tsx, NewMessageView)\<close>

text \<open>
  The callback \<^verbatim>\<open>execute\<close> of usePostMessage. \<open>chat\<close> is the chat as useGetChat has it,
  \<open>now\<close> the time value of \<^verbatim>\<open>new Date()\<close>, \<open>id1\<close> and \<open>id2\<close> the two ids that uuidv4 would
  give. The last step, \<^verbatim>\<open>invalidateQueries\<close>, only makes the view read the chat again.
\<close>

definition execute ::
  "env \<Rightarrow> string \<Rightarrow> string \<Rightarrow> DB \<Rightarrow> ChatItem list \<Rightarrow> string \<Rightarrow> int \<Rightarrow> (error + unit) \<times> DB"
where
  "execute E id1 id2 db chat text now =
     (let timestamp = Date now
      in (case createCompletion E id1 db chat text timestamp of
            (Inl e, db1) \<Rightarrow> (Inl e, db1)
          | (Inr newChat, db1) \<Rightarrow>
              (case compressChat E id2 db1 newChat of
                 (Inl e, db2) \<Rightarrow> (Inl e, db2)
               | (Inr u, db2) \<Rightarrow> (Inr (), db2))))"

text \<open>
  The state of NewMessageView that \<^verbatim>\<open>send\<close> changes: the text of the input, the flag
  \<^verbatim>\<open>isSending\<close>, what \<^verbatim>\<open>console.error\<close> has printed, and the number of alerts shown.
\<close>

record view =
  textValue :: string
  isSending :: bool
  console_error :: "(string \<times> error) list"
  alerts :: nat

text \<open>\<^verbatim>\<open>send\<close>: the only \<^verbatim>\<open>try\<close>/\<^verbatim>\<open>catch\<close> on the way from the button to the store.\<close>

definition send ::
  "env \<Rightarrow> string \<Rightarrow> string \<Rightarrow> DB \<Rightarrow> ChatItem list \<Rightarrow> int \<Rightarrow> view \<Rightarrow> view \<times> DB"
where
  "send E id1 id2 db chat now v =
     (let v1 = v\<lparr>isSending := True\<rparr>
      in (case execute E id1 id2 db chat (textValue v) now of
            (Inr u, db') \<Rightarrow> (v1\<lparr>textValue := [], isSending := False\<rparr>, db')
          | (Inl e, db') \<Rightarrow>
              (v1\<lparr>console_error := console_error v1 @ [(''Failed to send message'', e)],
                  alerts := alerts v1 + 1,
                  isSending := False\<rparr>, db')))"

section \<open>Example data\<close>

text \<open>
  Concrete records for the scenarios: a message with a given id, time value and cost, and
  a summary with a given id, span, level and cost; both active.
\<close>

definition example_message :: "string \<Rightarrow> int \<Rightarrow> int \<Rightarrow> ChatMessage" where
  "example_message i t c =
     \<lparr>id_msg = i, createdAt = Date t, userContent = ''u'', assistantContent = ''a'',
      tokensCount_msg = c, summaryId = ''NULL'', timestamp_msg = Date t\<rparr>"

definition example_summary :: "string \<Rightarrow> int \<Rightarrow> int \<Rightarrow> int \<Rightarrow> int \<Rightarrow> ChatSummary" where
  "example_summary i t1 t2 l c =
     \<lparr>id_sum = i, dateFrom = Date t1, dateTo = Date t2, content_sum = ''s'',
      level_sum = l, tokensCount_sum = c, parentId = ''NULL'', timestamp_sum = Date t2\<rparr>"

text \<open>
  An environment in which every call succeeds. Its date functions agree with the runtime
  (in the time zone UTC) on the time values 0 to 3 and on the strings \<^verbatim>\<open>toISOString\<close>
  gives for them; the completion endpoint always answers with one choice, and the
  embedding endpoint counts one token per character. Its engine is V8.
\<close>

definition example_env :: env where
  "example_env =
     \<lparr>createChatCompletion =
        (\<lambda>request. Inr \<lparr>choices =
           [\<lparr>choice_message = \<lparr>role = Assistant, name = None, content = ''condensed''\<rparr>\<rparr>]\<rparr>),
      createTextEmbedding =
        (\<lambda>input. Inr \<lparr>usage =
           \<lparr>prompt_tokens = int (length input), total_tokens = int (length input)\<rparr>\<rparr>),
      dateParse =
        (\<lambda>s. if s = ''1970-01-01T00:00:00.000Z'' then Date 0
             else if s = ''1970-01-01T00:00:00.001Z'' then Date 1
             else if s = ''1970-01-01T00:00:00.002Z'' then Date 2
             else if s = ''1970-01-01T00:00:00.003Z'' then Date 3
             else InvalidDate),
      isoString =
        (\<lambda>t. if t = 1 then ''1970-01-01T00:00:00.001Z''
             else if t = 2 then ''1970-01-01T00:00:00.002Z''
             else if t = 3 then ''1970-01-01T00:00:00.003Z''
             else ''1970-01-01T00:00:00.000Z''),
      dateFormat = (\<lambda>t. ''Thursday, January 1, 1970 at 0:00''),
      fault = (\<lambda>db request. None),
      engineSort = ArrayTimSort,
      COMPRESS_SYSTEM_MESSAGE = ''system message'',
      COMPRESS_SYSTEM_MESSAGE_2 = ''system message 2''\<rparr>"

text \<open>
  A database with two active messages and one with two active summaries; an environment
  in which every put into the message store fails; and an interchange document with one message and one summary, both without
  parent.
\<close>

definition example_db :: DB where
  "example_db =
     \<lparr>summaryStore = [],
      messageStore = [toDBMessage (example_message ''m1'' 1 4000),
                      toDBMessage (example_message ''m2'' 2 4000)]\<rparr>"

definition example_db2 :: DB where
  "example_db2 =
     \<lparr>summaryStore = [toDBSummary (example_summary ''s1'' 1 2 1 5000),
                      toDBSummary (example_summary ''s2'' 3 4 1 5000)],
      messageStore = []\<rparr>"

definition faulty_env :: env where
  "faulty_env =
     example_env\<lparr>fault :=
       (\<lambda>db request. case request of
          Put_message m \<Rightarrow> Some (DOMException ''QuotaExceededError'')
        | _ \<Rightarrow> None)\<rparr>"

definition example_document :: ImportedData where
  "example_document =
     \<lparr>version = ''1'',
      data_message =
        [\<lparr>id_im = ''x'', created_at = ''1970-01-01T00:00:00.001Z'', user_content = ''hello'',
          assistant_content = ''hi'', tokens_count_im = 7, summary_id = None\<rparr>],
      data_summary =
        [\<lparr>id_is = ''y'', date_from = ''1970-01-01T00:00:00.002Z'',
          date_to = ''1970-01-01T00:00:00.003Z'', content_is = ''before'', level_is = 1,
          tokens_count_is = 5, parent_id = None\<rparr>]\<rparr>"

text \<open>
  An environment in which the completion endpoint fails for the request of the compactor
  (the one with temperature 0) and answers the request of createCompletion.
\<close>

definition compaction_failing_env :: env where
  "compaction_failing_env =
     example_env\<lparr>createChatCompletion :=
       (\<lambda>request. if temperature request = 0 then Inl (AxiosError ''Network Error'')
                  else createChatCompletion example_env request)\<rparr>"

text \<open>
  A document of three messages, the second of which has a timestamp that
  \<^verbatim>\<open>new Date\<close> cannot parse.
\<close>

definition invalid_date_document :: ImportedData where
  "invalid_date_document =
     \<lparr>version = ''1'',
      data_message =
        [\<lparr>id_im = ''a'', created_at = ''1970-01-01T00:00:00.002Z'', user_content = ''two'',
          assistant_content = ''hi'', tokens_count_im = 7, summary_id = None\<rparr>,
         \<lparr>id_im = ''b'', created_at = ''yesterday'', user_content = ''when'',
          assistant_content = ''hi'', tokens_count_im = 7, summary_id = None\<rparr>,
         \<lparr>id_im = ''c'', created_at = ''1970-01-01T00:00:00.001Z'', user_content = ''one'',
          assistant_content = ''hi'', tokens_count_im = 7, summary_id = None\<rparr>],
      data_summary = []\<rparr>"

text \<open>
  A document with unique ids and valid timestamps in which a summary has the id
  \<^verbatim>\<open>"NULL"\<close> and a message has that summary as its parent.
\<close>

definition sentinel_document :: ImportedData where
  "sentinel_document =
     \<lparr>version = ''1'',
      data_message =
        [\<lparr>id_im = ''x'', created_at = ''1970-01-01T00:00:00.001Z'', user_content = ''hello'',
          assistant_content = ''hi'', tokens_count_im = 7, summary_id = Some ''NULL''\<rparr>],
      data_summary =
        [\<lparr>id_is = ''NULL'', date_from = ''1970-01-01T00:00:00.001Z'',
          date_to = ''1970-01-01T00:00:00.001Z'', content_is = ''before'', level_is = 1,
          tokens_count_is = 5, parent_id = None\<rparr>]\<rparr>"

section \<open>Properties of the selector\<close>

text \<open>
  \<open>(n + 1) div 2\<close> is \<open>n / 2\<close> rounded up: the least \<open>k\<close> with \<open>n \<le> 2 * k\<close>.
\<close>

lemma half_rounded_up:
  "(n::nat) \<le> 2 * ((n + 1) div 2) \<and> (\<forall>k. n \<le> 2 * k \<longrightarrow> (n + 1) div 2 \<le> k)"
  by presburger

lemma runStart_le: "runStart chat i \<le> i"
  by (induction i) auto

lemma slice_snoc:
  "s \<le> i \<Longrightarrow> i < length xs \<Longrightarrow> slice xs s (Suc i) = slice xs s i @ [xs ! i]"
  by (simp add: slice_def Suc_diff_le take_Suc_conv_app_nth)

lemma runSum_0: "0 < length chat \<Longrightarrow> runSum chat 0 = currentTokens (chat ! 0)"
  by (simp add: runSum_def slice_def take_Suc_conv_app_nth)

lemma runSum_Suc:
  assumes "Suc i < length chat"
  shows "runSum chat (Suc i) =
     (if currentLevel (chat ! Suc i) = currentLevel (chat ! i)
      then runSum chat i + currentTokens (chat ! Suc i) else currentTokens (chat ! Suc i))"
proof (cases "currentLevel (chat ! Suc i) = currentLevel (chat ! i)")
  case True
  have "runStart chat i \<le> Suc i" using runStart_le [of chat i] by simp
  then have "slice chat (runStart chat i) (Suc (Suc i)) =
      slice chat (runStart chat i) (Suc i) @ [chat ! Suc i]"
    using assms by (rule slice_snoc)
  with True show ?thesis by (simp add: runSum_def)
next
  case False
  have "slice chat (Suc i) (Suc (Suc i)) = [chat ! Suc i]"
    using assms slice_snoc [of "Suc i" "Suc i" chat] by (simp add: slice_def)
  with False show ?thesis by (simp add: runSum_def)
qed

text \<open>
  The loop and the first qualifying index: started in a state that satisfies the
  invariant, the loop stops at the first index from \<open>index\<close> on whose run has reached the
  threshold, and leaves \<^verbatim>\<open>endIndex\<close> null when there is none.
\<close>

lemma select_loop_find:
  "loop_inv chat index startIndex level tokens \<Longrightarrow>
   (case find (qualifying chat) [index..<length chat] of
      None \<Rightarrow> snd (select_loop chat index startIndex level tokens) = None
    | Some i \<Rightarrow> select_loop chat index startIndex level tokens = found chat i)"
proof (induction chat index startIndex level tokens rule: select_loop.induct)
  case (1 chat index startIndex level tokens)
  show ?case
  proof (cases "index < length chat")
    case False
    then show ?thesis by (simp add: select_loop.simps [of chat index])
  next
    case True
    define item where "item = chat ! index"
    define same where "same = (Some (currentLevel item) = level)"
    define level' where "level' = (if same then level else Some (currentLevel item))"
    define tokens' where
      "tokens' = (if same then tokens + currentTokens item else currentTokens item)"
    define startIndex' where "startIndex' = (if same then startIndex else Some index)"
    have st: "startIndex' = Some (runStart chat index)"
      using "1.prems" by (cases index) (auto simp: loop_inv_def startIndex'_def same_def item_def)
    have lv: "level' = Some (currentLevel (chat ! index))"
      by (auto simp: level'_def same_def item_def)
    have tk: "tokens' = runSum chat index"
      using "1.prems" True
      by (cases index) (auto simp: loop_inv_def tokens'_def same_def item_def runSum_0 runSum_Suc)
    have inv': "loop_inv chat (index + 1) startIndex' level' tokens'"
      by (simp add: loop_inv_def st lv tk)
    have upt: "[index..<length chat] = index # [index + 1..<length chat]"
      using True by (simp add: upt_conv_Cons)
    show ?thesis
    proof (cases "tokens' \<ge> MIN_SUMMARY_TOKENS * 2")
      case q: True
      then have "qualifying chat index" by (simp add: qualifying_def tk)
      moreover have "select_loop chat index startIndex level tokens = found chat index"
        using True q st
        by (subst select_loop.simps)
           (simp add: Let_def found_def item_def [symmetric] same_def [symmetric]
              tokens'_def [symmetric] startIndex'_def [symmetric])
      ultimately show ?thesis by (simp add: upt)
    next
      case nq: False
      then have nqual: "\<not> qualifying chat index" by (simp add: qualifying_def tk)
      have step: "select_loop chat index startIndex level tokens =
                  select_loop chat (index + 1) startIndex' level' tokens'"
        using True nq st
        by (subst select_loop.simps)
           (simp add: Let_def item_def [symmetric] same_def [symmetric]
              tokens'_def [symmetric] startIndex'_def [symmetric] level'_def [symmetric])
      have IH: "case find (qualifying chat) [index + 1..<length chat] of
          None \<Rightarrow> snd (select_loop chat (index + 1) startIndex' level' tokens') = None
        | Some i \<Rightarrow> select_loop chat (index + 1) startIndex' level' tokens' = found chat i"
        using "1.IH"(2) [OF True item_def same_def level'_def tokens'_def startIndex'_def st nq inv']
        by simp
      show ?thesis unfolding step using IH nqual by (simp add: upt)
    qed
  qed
qed

lemma select_eq_spec: "selectMessagesForSummary chat = select_spec chat"
  using select_loop_find [of chat 0 None None 0]
  by (auto simp: loop_inv_def selectMessagesForSummary_def select_spec_def found_def Let_def
      split: option.splits prod.splits)

lemma runStart_level:
  "runStart chat i \<le> k \<Longrightarrow> k \<le> i \<Longrightarrow> currentLevel (chat ! k) = currentLevel (chat ! i)"
proof (induction i arbitrary: k)
  case 0
  then show ?case by simp
next
  case (Suc i)
  show ?case
  proof (cases "k = Suc i")
    case True
    then show ?thesis by simp
  next
    case False
    with Suc.prems have k: "k \<le> i" by simp
    show ?thesis
    proof (cases "currentLevel (chat ! Suc i) = currentLevel (chat ! i)")
      case True
      with Suc.prems k Suc.IH [of k] show ?thesis by simp
    next
      case False
      with Suc.prems k show ?thesis by simp
    qed
  qed
qed

lemma runStart_boundary:
  "0 < runStart chat i \<Longrightarrow>
   currentLevel (chat ! (runStart chat i - 1)) \<noteq> currentLevel (chat ! runStart chat i)"
  by (induction i) (auto split: if_splits)

lemma in_slice:
  assumes "x \<in> set (slice xs s e)"
  shows "\<exists>k. s \<le> k \<and> k < e \<and> k < length xs \<and> x = xs ! k"
proof -
  from assms obtain j
    where j: "j < length (take (e - s) (drop s xs))" "x = take (e - s) (drop s xs) ! j"
    unfolding slice_def in_set_conv_nth by blast
  then have "s \<le> s + j \<and> s + j < e \<and> s + j < length xs \<and> x = xs ! (s + j)"
    by auto
  then show ?thesis by blast
qed

lemma select_cases:
  "selectMessagesForSummary chat = [] \<or>
   (\<exists>i < length chat. qualifying chat i \<and> (\<forall>j < i. \<not> qualifying chat j) \<and>
      selectMessagesForSummary chat =
        slice chat (runStart chat i) (runStart chat i + (i - runStart chat i + 1 + 1) div 2))"
proof (cases "find (qualifying chat) [0..<length chat]")
  case None
  then show ?thesis by (simp add: select_eq_spec select_spec_def)
next
  case (Some i)
  then have "i < length chat \<and> qualifying chat i \<and> (\<forall>j < i. \<not> qualifying chat j)"
    by (auto simp: find_Some_iff)
  with Some show ?thesis by (auto simp: select_eq_spec select_spec_def)
qed

lemma half_run_bound: "runStart chat i + (i - runStart chat i + 1 + 1) div 2 \<le> Suc i"
  using runStart_le [of chat i] by linarith

lemma select_uniform:
  assumes "a \<in> set (selectMessagesForSummary chat)" "b \<in> set (selectMessagesForSummary chat)"
  shows "currentLevel a = currentLevel b"
proof -
  from assms(1) have "selectMessagesForSummary chat \<noteq> []" by auto
  with select_cases [of chat] obtain i where i: "i < length chat"
    and sel: "selectMessagesForSummary chat =
        slice chat (runStart chat i) (runStart chat i + (i - runStart chat i + 1 + 1) div 2)"
    by auto
  have "currentLevel x = currentLevel (chat ! i)"
    if "x \<in> set (selectMessagesForSummary chat)" for x
  proof -
    from that have "x \<in> set (slice chat (runStart chat i)
        (runStart chat i + (i - runStart chat i + 1 + 1) div 2))"
      by (simp add: sel)
    from in_slice [OF this] obtain k where "runStart chat i \<le> k"
      "k < runStart chat i + (i - runStart chat i + 1 + 1) div 2" "x = chat ! k"
      by blast
    with half_run_bound [of chat i] show ?thesis using runStart_level [of chat i k] by simp
  qed
  with assms show ?thesis by simp
qed

lemma select_contiguous:
  "\<exists>start end. start \<le> end \<and> end \<le> length chat \<and>
     selectMessagesForSummary chat = slice chat start end"
proof -
  from select_cases [of chat] show ?thesis
  proof
    assume "selectMessagesForSummary chat = []"
    then have "0 \<le> (0::nat) \<and> 0 \<le> length chat \<and>
        selectMessagesForSummary chat = slice chat 0 0"
      by (simp add: slice_def)
    then show ?thesis by blast
  next
    assume "\<exists>i < length chat. qualifying chat i \<and> (\<forall>j < i. \<not> qualifying chat j) \<and>
      selectMessagesForSummary chat =
        slice chat (runStart chat i) (runStart chat i + (i - runStart chat i + 1 + 1) div 2)"
    then obtain i where i: "i < length chat" and sel: "selectMessagesForSummary chat =
        slice chat (runStart chat i) (runStart chat i + (i - runStart chat i + 1 + 1) div 2)"
      by blast
    with half_run_bound [of chat i]
    have "runStart chat i \<le> runStart chat i + (i - runStart chat i + 1 + 1) div 2 \<and>
       runStart chat i + (i - runStart chat i + 1 + 1) div 2 \<le> length chat \<and>
       selectMessagesForSummary chat =
         slice chat (runStart chat i) (runStart chat i + (i - runStart chat i + 1 + 1) div 2)"
      by simp
    then show ?thesis by blast
  qed
qed

lemma select_five_messages:
  assumes "\<forall>m \<in> set [m1, m2, m3, m4, m5]. tokensCount_msg m = MIN_SUMMARY_TOKENS"
  shows "selectMessagesForSummary [Message m1] = []"
    and "selectMessagesForSummary [Message m1, Message m2] = [Message m1]"
    and "selectMessagesForSummary [Message m1, Message m2, Message m3, Message m4, Message m5] =
         [Message m1]"
  using assms
  by (simp_all add: select_eq_spec select_spec_def qualifying_def runSum_def slice_def
      MIN_SUMMARY_TOKENS_def upt_rec)

lemma select_alternating:
  assumes "level_sum s1 = 1" "level_sum s3 = 1"
    and "\<forall>x \<in> set [Message m0, Summary s1, Message m2, Summary s3].
           2 * MIN_SUMMARY_TOKENS \<le> currentTokens x"
  shows "map (runStart [Message m0, Summary s1, Message m2, Summary s3]) [0, 1, 2, 3] = [0, 1, 2, 3]"
    and "selectMessagesForSummary [Message m0, Summary s1, Message m2, Summary s3] = [Message m0]"
  using assms
  by (simp_all add: eval_nat_numeral select_eq_spec select_spec_def qualifying_def runSum_def
      slice_def upt_rec)

text \<open>
  Claim C1. The loop of selectMessagesForSummary is the scan of the specification: with a
  run restarting at every change of level (\<open>runStart\<close>) and \<open>runSum\<close> the cumulative cost of
  the run scanned so far, it stops at the first index \<open>i\<close> at which \<open>runSum\<close> reaches
  \<open>2 * B\<close>, \<open>B = MIN_SUMMARY_TOKENS = 4000\<close>, and returns the slice
  \<open>[runStart, runStart + ceil(len / 2))\<close> with \<open>len = i - runStart + 1\<close>; when no index
  qualifies, and so for the empty chat, it returns the empty slice. For five messages of
  cost \<open>B\<close> each (level 0, whatever their timestamps): nothing after the first message,
  exactly the first message after the second, and the first message also when all five
  are there.
\<close>

theorem C1_selector_scan:
  "selectMessagesForSummary chat = select_spec chat \<and>
   MIN_SUMMARY_TOKENS = 4000 \<and>
   selectMessagesForSummary [] = [] \<and>
   ((\<forall>i < length chat0. runSum chat0 i < 2 * MIN_SUMMARY_TOKENS) \<longrightarrow>
      selectMessagesForSummary chat0 = []) \<and>
   (i < length chat1 \<and> 2 * MIN_SUMMARY_TOKENS \<le> runSum chat1 i \<and>
    (\<forall>j < i. runSum chat1 j < 2 * MIN_SUMMARY_TOKENS) \<longrightarrow>
      selectMessagesForSummary chat1 =
        slice chat1 (runStart chat1 i)
          (runStart chat1 i + (i - runStart chat1 i + 1 + 1) div 2)) \<and>
   ((\<forall>m \<in> set [m1, m2, m3, m4, m5]. tokensCount_msg m = MIN_SUMMARY_TOKENS) \<longrightarrow>
      selectMessagesForSummary [Message m1] = [] \<and>
      selectMessagesForSummary [Message m1, Message m2] = [Message m1] \<and>
      selectMessagesForSummary [Message m1, Message m2, Message m3, Message m4, Message m5] =
        [Message m1])"
proof -
  have none: "selectMessagesForSummary chat0 = []"
    if "\<forall>i < length chat0. runSum chat0 i < 2 * MIN_SUMMARY_TOKENS"
  proof -
    from that have "find (qualifying chat0) [0..<length chat0] = None"
      by (auto simp: find_None_iff qualifying_def)
    then show ?thesis by (simp add: select_eq_spec select_spec_def)
  qed
  have first: "selectMessagesForSummary chat1 =
        slice chat1 (runStart chat1 i) (runStart chat1 i + (i - runStart chat1 i + 1 + 1) div 2)"
    if "i < length chat1" "2 * MIN_SUMMARY_TOKENS \<le> runSum chat1 i"
      "\<forall>j < i. runSum chat1 j < 2 * MIN_SUMMARY_TOKENS"
  proof -
    from that have "j < length chat1" if "j < i" for j
      using that by simp
    with that have "find (qualifying chat1) [0..<length chat1] = Some i"
      unfolding find_Some_iff by (intro exI [of _ i]) (simp add: qualifying_def not_le)
    then show ?thesis by (simp add: select_eq_spec select_spec_def)
  qed
  have empty: "selectMessagesForSummary [] = []"
    by (simp add: select_eq_spec select_spec_def)
  show ?thesis
    using none first empty select_five_messages [of m1 m2 m3 m4 m5]
    by (simp add: select_eq_spec MIN_SUMMARY_TOKENS_def)
qed

text \<open>
  The witness: the five messages of the scenario. After the first message the run has
  cost 4000 and nothing is selected; after the second the run reaches 8000 at index 1,
  it started at index 0, and the first message is selected.
\<close>

theorem C1_selector_scan_witness:
  "runSum [Message (example_message ''m1'' 1 4000)] 0 = 4000 \<and>
   selectMessagesForSummary [Message (example_message ''m1'' 1 4000)] = [] \<and>
   runSum [Message (example_message ''m1'' 1 4000), Message (example_message ''m2'' 2 4000)] 1 =
     8000 \<and>
   runStart [Message (example_message ''m1'' 1 4000), Message (example_message ''m2'' 2 4000)] 1 =
     0 \<and>
   selectMessagesForSummary
     [Message (example_message ''m1'' 1 4000), Message (example_message ''m2'' 2 4000)] =
     [Message (example_message ''m1'' 1 4000)] \<and>
   selectMessagesForSummary
     [Message (example_message ''m1'' 1 4000), Message (example_message ''m2'' 2 4000),
      Message (example_message ''m3'' 3 4000), Message (example_message ''m4'' 4 4000),
      Message (example_message ''m5'' 5 4000)] =
     [Message (example_message ''m1'' 1 4000)]"
proof -
  let ?m1 = "example_message ''m1'' 1 4000" and ?m2 = "example_message ''m2'' 2 4000"
  have r0: "runSum [Message ?m1] 0 = 4000"
    by (simp add: runSum_def slice_def example_message_def)
  have r1: "runSum [Message ?m1, Message ?m2] 0 = 4000" "runSum [Message ?m1, Message ?m2] 1 = 8000"
    "runStart [Message ?m1, Message ?m2] 1 = 0"
    by (simp_all add: runSum_def slice_def example_message_def)
  have h0: "\<forall>i < length [Message ?m1]. runSum [Message ?m1] i < 2 * MIN_SUMMARY_TOKENS"
    using r0 by (simp add: MIN_SUMMARY_TOKENS_def)
  have h1: "1 < length [Message ?m1, Message ?m2] \<and>
      2 * MIN_SUMMARY_TOKENS \<le> runSum [Message ?m1, Message ?m2] 1 \<and>
      (\<forall>j < 1. runSum [Message ?m1, Message ?m2] j < 2 * MIN_SUMMARY_TOKENS)"
    using r1 by (simp add: MIN_SUMMARY_TOKENS_def)
  have h2: "\<forall>m \<in> set [?m1, ?m2, example_message ''m3'' 3 4000, example_message ''m4'' 4 4000,
      example_message ''m5'' 5 4000]. tokensCount_msg m = MIN_SUMMARY_TOKENS"
    by (simp add: example_message_def MIN_SUMMARY_TOKENS_def)
  note scan = C1_selector_scan [of "[Message ?m1, Message ?m2]" "[Message ?m1]"
      1 "[Message ?m1, Message ?m2]" ?m1 ?m2 "example_message ''m3'' 3 4000"
      "example_message ''m4'' 4 4000" "example_message ''m5'' 5 4000"]
  from scan h0 have a: "selectMessagesForSummary [Message ?m1] = []"
    by blast
  from scan h1 have "selectMessagesForSummary [Message ?m1, Message ?m2] =
      slice [Message ?m1, Message ?m2] (runStart [Message ?m1, Message ?m2] 1)
        (runStart [Message ?m1, Message ?m2] 1 +
         (1 - runStart [Message ?m1, Message ?m2] 1 + 1 + 1) div 2)"
    by blast
  with r1 have b: "selectMessagesForSummary [Message ?m1, Message ?m2] = [Message ?m1]"
    by (simp add: slice_def)
  from scan h2 have c: "selectMessagesForSummary
     [Message ?m1, Message ?m2, Message (example_message ''m3'' 3 4000),
      Message (example_message ''m4'' 4 4000), Message (example_message ''m5'' 5 4000)] =
     [Message ?m1]"
    by blast
  from r0 r1 a b c show ?thesis by simp
qed

text \<open>
  Claim C2. What selectMessagesForSummary returns is a contiguous slice of the chat, and
  all its items have one level (a message counting as level 0). For a chat of levels
  0, 1, 0, 1 in which every item costs at least \<open>2 * B\<close>, every item starts a run of its
  own, and the slice returned is the first item alone.
\<close>

theorem C2_selection_one_level:
  "(\<exists>start end. start \<le> end \<and> end \<le> length chat \<and>
      selectMessagesForSummary chat = slice chat start end) \<and>
   (\<forall>a \<in> set (selectMessagesForSummary chat). \<forall>b \<in> set (selectMessagesForSummary chat).
      currentLevel a = currentLevel b) \<and>
   (level_sum s1 = 1 \<and> level_sum s3 = 1 \<and>
    (\<forall>x \<in> set [Message m0, Summary s1, Message m2, Summary s3].
       2 * MIN_SUMMARY_TOKENS \<le> currentTokens x) \<longrightarrow>
      map (runStart [Message m0, Summary s1, Message m2, Summary s3]) [0, 1, 2, 3] =
        [0, 1, 2, 3] \<and>
      selectMessagesForSummary [Message m0, Summary s1, Message m2, Summary s3] = [Message m0])"
  using select_contiguous [of chat] select_uniform [of _ chat]
    select_alternating [of s1 s3 m0 m2]
  by blast

text \<open>
  The witness: the alternating chat of the scenario, and a chat of a summary followed by
  three messages, where the run of the messages reaches the threshold at its third item
  and its first two items are selected.
\<close>

theorem C2_selection_one_level_witness:
  "map (runStart
      [Message (example_message ''a'' 1 8000), Summary (example_summary ''b'' 2 3 1 9000),
       Message (example_message ''c'' 4 8500), Summary (example_summary ''d'' 5 6 1 8000)])
     [0, 1, 2, 3] = [0, 1, 2, 3] \<and>
   selectMessagesForSummary
     [Message (example_message ''a'' 1 8000), Summary (example_summary ''b'' 2 3 1 9000),
      Message (example_message ''c'' 4 8500), Summary (example_summary ''d'' 5 6 1 8000)] =
     [Message (example_message ''a'' 1 8000)] \<and>
   selectMessagesForSummary
     [Summary (example_summary ''s'' 1 2 1 3000), Message (example_message ''m1'' 3 4000),
      Message (example_message ''m2'' 4 3000), Message (example_message ''m3'' 5 2000)] =
     slice
       [Summary (example_summary ''s'' 1 2 1 3000), Message (example_message ''m1'' 3 4000),
        Message (example_message ''m2'' 4 3000), Message (example_message ''m3'' 5 2000)] 1 3 \<and>
   map currentLevel (selectMessagesForSummary
     [Summary (example_summary ''s'' 1 2 1 3000), Message (example_message ''m1'' 3 4000),
      Message (example_message ''m2'' 4 3000), Message (example_message ''m3'' 5 2000)]) =
     [0, 0]"
proof -
  have sel: "selectMessagesForSummary
     [Summary (example_summary ''s'' 1 2 1 3000), Message (example_message ''m1'' 3 4000),
      Message (example_message ''m2'' 4 3000), Message (example_message ''m3'' 5 2000)] =
     [Message (example_message ''m1'' 3 4000), Message (example_message ''m2'' 4 3000)]"
    by (simp add: select_eq_spec select_spec_def qualifying_def runSum_def slice_def
        MIN_SUMMARY_TOKENS_def upt_rec example_message_def example_summary_def)
  have h: "level_sum (example_summary ''b'' 2 3 1 9000) = 1 \<and>
      level_sum (example_summary ''d'' 5 6 1 8000) = 1 \<and>
      (\<forall>x \<in> set [Message (example_message ''a'' 1 8000),
          Summary (example_summary ''b'' 2 3 1 9000), Message (example_message ''c'' 4 8500),
          Summary (example_summary ''d'' 5 6 1 8000)]. 2 * MIN_SUMMARY_TOKENS \<le> currentTokens x)"
    by (simp add: example_message_def example_summary_def MIN_SUMMARY_TOKENS_def)
  from C2_selection_one_level [of
      "[Summary (example_summary ''s'' 1 2 1 3000), Message (example_message ''m1'' 3 4000),
        Message (example_message ''m2'' 4 3000), Message (example_message ''m3'' 5 2000)]"
      "example_summary ''b'' 2 3 1 9000" "example_summary ''d'' 5 6 1 8000"
      "example_message ''a'' 1 8000" "example_message ''c'' 4 8500"] h sel
  show ?thesis by (simp add: slice_def)
qed

section \<open>Properties of the compactor\<close>

lemma formatTimestamp_valid: "dt \<noteq> InvalidDate \<Longrightarrow> formatTimestamp E dt = Inr (formatted E dt)"
  by (cases dt) (simp_all add: formatTimestamp_def formatted_def)

lemma compress_loop_valid:
  "\<forall>x \<in> set items. dates_valid x \<Longrightarrow>
   compress_loop E items (texts, dF, dT, lv) =
     Inr (texts @ map (fullStr E) items,
          (if items = [] then dF
           else Some (case dF of Some d \<Rightarrow> d | None \<Rightarrow> spanStart (hd items))),
          (if items = [] then dT else Some (orderingTimestamp (last items))),
          (if items = [] then lv else Some (currentLevel (last items))))"
proof (induction items arbitrary: texts dF dT lv)
  case Nil
  then show ?case by simp
next
  case (Cons x xs)
  then have IH: "\<And>texts dF dT lv. compress_loop E xs (texts, dF, dT, lv) =
     Inr (texts @ map (fullStr E) xs,
          (if xs = [] then dF
           else Some (case dF of Some d \<Rightarrow> d | None \<Rightarrow> spanStart (hd xs))),
          (if xs = [] then dT else Some (orderingTimestamp (last xs))),
          (if xs = [] then lv else Some (currentLevel (last xs))))"
    by simp
  from Cons.prems have v: "dates_valid x" by simp
  show ?case
  proof (cases x)
    case (Message m)
    with v show ?thesis
      by (simp add: formatTimestamp_valid IH Let_def split: option.split)
  next
    case (Summary s)
    with v show ?thesis
      by (simp add: formatTimestamp_valid IH Let_def split: option.split)
  qed
qed

lemma compress_loop_Inr:
  "compress_loop E items vars = Inr r \<Longrightarrow> \<forall>x \<in> set items. dates_valid x"
proof (induction items arbitrary: vars)
  case Nil
  then show ?case by simp
next
  case (Cons x xs)
  obtain texts dF dT lv where vars: "vars = (texts, dF, dT, lv)" by (cases vars) auto
  show ?case
  proof (cases x)
    case (Message m)
    with Cons.prems vars have "createdAt m \<noteq> InvalidDate"
      by (auto simp: formatTimestamp_def split: Date.splits sum.splits)
    moreover from Cons.prems vars Message have "\<exists>vars'. compress_loop E xs vars' = Inr r"
      by (auto simp: Let_def split: sum.splits)
    ultimately show ?thesis using Cons.IH Message by auto
  next
    case (Summary s)
    with Cons.prems vars have "dateFrom s \<noteq> InvalidDate \<and> dateTo s \<noteq> InvalidDate"
      by (auto simp: formatTimestamp_def split: Date.splits sum.splits)
    moreover from Cons.prems vars Summary have "\<exists>vars'. compress_loop E xs vars' = Inr r"
      by (auto simp: Let_def split: sum.splits)
    ultimately show ?thesis using Cons.IH Summary by auto
  qed
qed

lemma compressMessages_empty: "compressMessages E newId [] = Inl (Error ''Empty summary'')"
  by (simp add: compressMessages_def)

lemma compressMessages_valid:
  assumes "items \<noteq> []" "\<forall>x \<in> set items. dates_valid x"
  shows "compressMessages E newId items =
     (case createChatCompletion E (compress_request E items) of
        Inl e \<Rightarrow> Inl e
      | Inr result \<Rightarrow>
          (case choices result of
             [] \<Rightarrow> Inl TypeError
           | choice # _ \<Rightarrow>
               (case createTextEmbedding E (content (choice_message choice)) of
                  Inl e \<Rightarrow> Inl e
                | Inr embedding \<Rightarrow>
                    Inr (summary_of newId items (content (choice_message choice))
                           (total_tokens (usage embedding))))))"
  using assms
  by (simp add: compressMessages_def compress_loop_valid [of items E "[]" None None None]
      compress_request_def summary_of_def Let_def split: sum.splits list.splits)

lemma compressMessages_invalid:
  assumes "\<not> (\<forall>x \<in> set items. dates_valid x)"
  shows "\<exists>e. compressMessages E newId items = Inl e"
proof (cases "compress_loop E items ([], None, None, None)")
  case (Inl e)
  then show ?thesis by (simp add: compressMessages_def)
next
  case (Inr r)
  from compress_loop_Inr [OF this] assms show ?thesis by simp
qed

text \<open>
  Claim C3, as amended. For a non-empty slice whose items all have level \<open>L\<close>, a summary
  that compressMessages returns has level \<open>L + 1\<close> (the maximum of the source levels plus
  one), \<open>dateTo\<close> the ordering timestamp of the last item, the parent reference
  \<^verbatim>\<open>"NULL"\<close>, and as token count the total-token count that the embedding endpoint gives
  for the condensed text alone. Its \<open>dateFrom\<close> is the start of the span of the first item:
  \<open>createdAt\<close> of a message, which is its ordering timestamp, but \<open>dateFrom\<close> of a summary,
  which is not.
\<close>

theorem C3_compressMessages_summary:
  assumes "items \<noteq> []"
    and "\<forall>x \<in> set items. currentLevel x = L"
    and "compressMessages E newId items = Inr s"
  shows "level_sum s = L + 1 \<and>
         level_sum s = Max (currentLevel ` set items) + 1 \<and>
         dateFrom s = spanStart (hd items) \<and>
         (\<forall>m. hd items = Message m \<longrightarrow> dateFrom s = orderingTimestamp (hd items)) \<and>
         dateTo s = orderingTimestamp (last items) \<and>
         parentId s = ''NULL'' \<and>
         (\<exists>embedding. createTextEmbedding E (content_sum s) = Inr embedding \<and>
            tokensCount_sum s = total_tokens (usage embedding))"
proof -
  have valid: "\<forall>x \<in> set items. dates_valid x"
    using compressMessages_invalid [of items E newId] assms(3) by auto
  from assms(1) have "last items \<in> set items" by simp
  with assms(2) have lv: "currentLevel (last items) = L" by blast
  from assms(2) \<open>last items \<in> set items\<close> have "currentLevel ` set items = {L}"
    by (auto simp: image_iff)
  then have mx: "Max (currentLevel ` set items) = L" by simp
  from assms(3) obtain result choice rest embedding
    where "createChatCompletion E (compress_request E items) = Inr result"
      and "choices result = choice # rest"
      and emb: "createTextEmbedding E (content (choice_message choice)) = Inr embedding"
      and s: "s = summary_of newId items (content (choice_message choice))
                    (total_tokens (usage embedding))"
    unfolding compressMessages_valid [OF assms(1) valid]
    by (auto split: sum.splits list.splits)
  from s have "content_sum s = content (choice_message choice)"
    and "tokensCount_sum s = total_tokens (usage embedding)"
    by (simp_all add: summary_of_def)
  with emb have "\<exists>embedding. createTextEmbedding E (content_sum s) = Inr embedding \<and>
      tokensCount_sum s = total_tokens (usage embedding)"
    by auto
  moreover from s lv mx have "level_sum s = L + 1"
    and "level_sum s = Max (currentLevel ` set items) + 1"
    and "dateFrom s = spanStart (hd items)"
    and "dateTo s = orderingTimestamp (last items)"
    and "parentId s = ''NULL''"
    by (simp_all add: summary_of_def)
  moreover have "\<forall>m. hd items = Message m \<longrightarrow> spanStart (hd items) = orderingTimestamp (hd items)"
    by auto
  ultimately show ?thesis by simp
qed

text \<open>
  The witness: a slice of two summaries of level 1, and a slice of two messages.
\<close>

theorem C3_compressMessages_summary_witness:
  "compressMessages example_env ''n''
     [Summary (example_summary ''s1'' 1 2 1 5000), Summary (example_summary ''s2'' 3 4 1 5000)] =
     Inr \<lparr>id_sum = ''n'', dateFrom = Date 1, dateTo = Date 4, content_sum = ''condensed'',
          level_sum = 2, tokensCount_sum = 9, parentId = ''NULL'', timestamp_sum = Date 4\<rparr> \<and>
   compressMessages example_env ''n''
     [Message (example_message ''m1'' 1 4000), Message (example_message ''m2'' 2 4000)] =
     Inr \<lparr>id_sum = ''n'', dateFrom = Date 1, dateTo = Date 2, content_sum = ''condensed'',
          level_sum = 1, tokensCount_sum = 9, parentId = ''NULL'', timestamp_sum = Date 2\<rparr> \<and>
   createTextEmbedding example_env ''condensed'' =
     Inr \<lparr>usage = \<lparr>prompt_tokens = 9, total_tokens = 9\<rparr>\<rparr>"
proof -
  have ex: "compressMessages example_env ''n''
     [Summary (example_summary ''s1'' 1 2 1 5000), Summary (example_summary ''s2'' 3 4 1 5000)] =
     Inr \<lparr>id_sum = ''n'', dateFrom = Date 1, dateTo = Date 4, content_sum = ''condensed'',
          level_sum = 2, tokensCount_sum = 9, parentId = ''NULL'', timestamp_sum = Date 4\<rparr>"
    by (simp add: compressMessages_def formatTimestamp_def example_env_def example_summary_def)
  have lv: "\<forall>x \<in> set [Summary (example_summary ''s1'' 1 2 1 5000),
      Summary (example_summary ''s2'' 3 4 1 5000)]. currentLevel x = 1"
    by (simp add: example_summary_def)
  have ex': "compressMessages example_env ''n''
     [Message (example_message ''m1'' 1 4000), Message (example_message ''m2'' 2 4000)] =
     Inr \<lparr>id_sum = ''n'', dateFrom = Date 1, dateTo = Date 2, content_sum = ''condensed'',
          level_sum = 1, tokensCount_sum = 9, parentId = ''NULL'', timestamp_sum = Date 2\<rparr>"
    by (simp add: compressMessages_def formatTimestamp_def example_env_def example_message_def)
  have lv': "\<forall>x \<in> set [Message (example_message ''m1'' 1 4000),
      Message (example_message ''m2'' 2 4000)]. currentLevel x = 0"
    by simp
  from C3_compressMessages_summary [OF _ lv ex] C3_compressMessages_summary [OF _ lv' ex'] ex ex'
  show ?thesis
    by (simp add: example_env_def)
qed

text \<open>
  The claim C3 as the specification states it fails for a slice that starts with a
  summary: the ordering timestamp of the summary is its \<open>dateTo\<close> (5 here), and the
  \<open>dateFrom\<close> of the result is the summary's \<open>dateFrom\<close> (1 here).
\<close>

theorem C3_dateFrom_counterexample:
  "compressMessages example_env ''n'' [Summary (example_summary ''s1'' 1 5 1 9000)] =
     Inr \<lparr>id_sum = ''n'', dateFrom = Date 1, dateTo = Date 5, content_sum = ''condensed'',
          level_sum = 2, tokensCount_sum = 9, parentId = ''NULL'', timestamp_sum = Date 5\<rparr> \<and>
   orderingTimestamp (hd [Summary (example_summary ''s1'' 1 5 1 9000)]) = Date 5 \<and>
   item_timestamp (hd [Summary (example_summary ''s1'' 1 5 1 9000)]) = Date 5"
  by (simp add: compressMessages_def formatTimestamp_def example_env_def example_summary_def)

text \<open>
  Claim C4, as amended. compressMessages does not compare the levels of the items. The
  only slice it rejects by itself is the empty one (\<^verbatim>\<open>Error("Empty summary")\<close>). For a
  non-empty slice, of one level or of several, it fails when a date to be formatted is
  invalid, and otherwise its outcome is that of the two provider calls: when both succeed
  it returns a summary, whose level is the level of the last item plus one.
\<close>

theorem C4_compressMessages_no_level_check:
  "compressMessages E newId [] = Inl (Error ''Empty summary'') \<and>
   (items \<noteq> [] \<and> (\<forall>x \<in> set items. dates_valid x) \<longrightarrow>
      compressMessages E newId items =
        (case createChatCompletion E (compress_request E items) of
           Inl e \<Rightarrow> Inl e
         | Inr result \<Rightarrow>
             (case choices result of
                [] \<Rightarrow> Inl TypeError
              | choice # _ \<Rightarrow>
                  (case createTextEmbedding E (content (choice_message choice)) of
                     Inl e \<Rightarrow> Inl e
                   | Inr embedding \<Rightarrow>
                       Inr (summary_of newId items (content (choice_message choice))
                              (total_tokens (usage embedding))))))) \<and>
   (\<not> (\<forall>x \<in> set items. dates_valid x) \<longrightarrow> (\<exists>e. compressMessages E newId items = Inl e)) \<and>
   level_sum (summary_of newId items resultText resultTokens) = currentLevel (last items) + 1"
  using compressMessages_empty [of E newId] compressMessages_valid [of items E newId]
    compressMessages_invalid [of items E newId]
  by (simp add: summary_of_def)

text \<open>
  The witness: a slice of a message and a summary of level 3, which gives a summary of
  level 4, and a slice of one message whose date is invalid, which fails in
  formatTimestamp.
\<close>

theorem C4_compressMessages_no_level_check_witness:
  "compressMessages example_env ''n''
     [Message (example_message ''a'' 1 8000), Summary (example_summary ''b'' 2 3 3 9000)] =
     Inr (summary_of ''n''
       [Message (example_message ''a'' 1 8000), Summary (example_summary ''b'' 2 3 3 9000)]
       ''condensed'' 9) \<and>
   level_sum (summary_of ''n''
       [Message (example_message ''a'' 1 8000), Summary (example_summary ''b'' 2 3 3 9000)]
       ''condensed'' 9) = 4 \<and>
   compressMessages example_env ''n''
     [Message ((example_message ''a'' 1 8000)\<lparr>createdAt := InvalidDate\<rparr>)] = Inl RangeError"
proof -
  have v: "[Message (example_message ''a'' 1 8000), Summary (example_summary ''b'' 2 3 3 9000)] \<noteq> [] \<and>
      (\<forall>x \<in> set [Message (example_message ''a'' 1 8000),
          Summary (example_summary ''b'' 2 3 3 9000)]. dates_valid x)"
    by (simp add: example_message_def example_summary_def)
  have nv: "\<not> (\<forall>x \<in> set [Message ((example_message ''a'' 1 8000)\<lparr>createdAt := InvalidDate\<rparr>)].
      dates_valid x)"
    by simp
  have inv: "compressMessages example_env ''n''
     [Message ((example_message ''a'' 1 8000)\<lparr>createdAt := InvalidDate\<rparr>)] = Inl RangeError"
    by (simp add: compressMessages_def formatTimestamp_def)
  from C4_compressMessages_no_level_check [of example_env "''n''"
      "[Message (example_message ''a'' 1 8000), Summary (example_summary ''b'' 2 3 3 9000)]"
      "''condensed''" 9] v
    C4_compressMessages_no_level_check [of example_env "''n''"
      "[Message ((example_message ''a'' 1 8000)\<lparr>createdAt := InvalidDate\<rparr>)]"
      "''condensed''" 9] nv inv
  show ?thesis
    by (simp add: example_env_def example_message_def example_summary_def)
qed

text \<open>
  The claim C4 as the specification states it fails: given a slice of a message (level 0)
  and a summary of level 3, compressMessages returns a summary, of level 4.
\<close>

theorem C4_heterogeneous_counterexample:
  "currentLevel (Message (example_message ''a'' 1 8000)) = 0 \<and>
   currentLevel (Summary (example_summary ''b'' 2 3 3 9000)) = 3 \<and>
   compressMessages example_env ''n''
     [Message (example_message ''a'' 1 8000), Summary (example_summary ''b'' 2 3 3 9000)] =
     Inr \<lparr>id_sum = ''n'', dateFrom = Date 1, dateTo = Date 3, content_sum = ''condensed'',
          level_sum = 4, tokensCount_sum = 9, parentId = ''NULL'', timestamp_sum = Date 3\<rparr>"
  by (simp add: compressMessages_def formatTimestamp_def example_env_def example_message_def
      example_summary_def)

section \<open>Properties of the store\<close>

lemma lookup_put:
  "lookup key k (put key v xs) = (if key v = k then Some v else lookup key k xs)"
  by (induction xs) (auto simp: lookup_def)

lemma find_append:
  "find P (xs @ ys) = (case find P xs of None \<Rightarrow> find P ys | Some x \<Rightarrow> Some x)"
  by (induction xs) auto

lemma lookup_put_all:
  "lookup key k (put_all key st vs) =
     (case find (\<lambda>v. key v = k) (rev vs) of Some v \<Rightarrow> Some v | None \<Rightarrow> lookup key k st)"
  unfolding put_all_def
  by (induction vs arbitrary: st) (auto simp: lookup_put find_append split: option.splits)

lemma put_summaries_Inr:
  "put_summaries E db ss = Inr db' \<Longrightarrow>
   summaryStore db' = put_all id_sum (summaryStore db) ss \<and> messageStore db' = messageStore db"
  unfolding put_all_def
  by (induction ss arbitrary: db) (auto split: option.splits)

lemma put_messages_Inr:
  "put_messages E db ms = Inr db' \<Longrightarrow>
   messageStore db' = put_all id_msg (messageStore db) ms \<and> summaryStore db' = summaryStore db"
  unfolding put_all_def
  by (induction ms arbitrary: db) (auto split: option.splits)

lemma put_summaries_no_fault:
  "\<forall>d q. fault E d q = None \<Longrightarrow> \<exists>db'. put_summaries E db ss = Inr db'"
  by (induction ss arbitrary: db) auto

lemma put_messages_no_fault:
  "\<forall>d q. fault E d q = None \<Longrightarrow> \<exists>db'. put_messages E db ms = Inr db'"
  by (induction ms arbitrary: db) auto

lemma updateData_cases:
  assumes "updateData E db summaries messages = (r, db')"
  shows "(\<exists>e. r = Inl e \<and> db' = db) \<or>
         (r = Inr () \<and> summaryStore db' = put_all id_sum (summaryStore db) summaries \<and>
          messageStore db' = put_all id_msg (messageStore db) messages)"
  using assms
  by (auto simp: updateData_def transaction_def split: option.splits sum.splits
      dest!: put_summaries_Inr put_messages_Inr)

lemma updateData_no_fault:
  assumes "\<forall>d q. fault E d q = None"
  shows "fst (updateData E db summaries messages) = Inr ()"
proof -
  from put_summaries_no_fault [OF assms] obtain db1 where 1: "put_summaries E db summaries = Inr db1"
    by blast
  from put_messages_no_fault [OF assms] obtain db2 where 2: "put_messages E db1 messages = Inr db2"
    by blast
  from assms 1 2 show ?thesis by (simp add: updateData_def transaction_def)
qed


lemma find_Some_set: "find P ys = Some x \<Longrightarrow> x \<in> set ys \<and> P x"
  by (induction ys) (auto split: if_splits)

lemma find_rev_Some: "find P (rev xs) = Some x \<Longrightarrow> x \<in> set xs \<and> P x"
  using find_Some_set [of P "rev xs" x] by simp

lemma find_rev_None: "find P (rev xs) = None \<longleftrightarrow> (\<forall>x \<in> set xs. \<not> P x)"
  by (auto simp: find_None_iff)

lemma reparented_messages_set:
  "set (reparented_messages items sid) =
     {(toDBMessage m)\<lparr>summaryId := sid\<rparr> | m. Message m \<in> set items}"
  by (induction items sid rule: reparented_messages.induct) auto

lemma reparented_summaries_set:
  "set (reparented_summaries items sid) =
     {(toDBSummary s)\<lparr>parentId := sid\<rparr> | s. Summary s \<in> set items}"
  by (induction items sid rule: reparented_summaries.induct) auto

lemma id_toDBMessage: "id_msg ((toDBMessage m)\<lparr>summaryId := sid\<rparr>) = id_msg m"
  by (simp add: toDBMessage_def)

lemma id_toDBSummary: "id_sum ((toDBSummary s)\<lparr>parentId := sid\<rparr>) = id_sum s"
  by (simp add: toDBSummary_def)

lemma lookup_reparented_message:
  assumes "Message m \<in> set items"
  shows "\<exists>m0. Message m0 \<in> set items \<and> id_msg m0 = id_msg m \<and>
    lookup id_msg (id_msg m) (put_all id_msg st (reparented_messages items sid)) =
      Some ((toDBMessage m0)\<lparr>summaryId := sid\<rparr>)"
proof (cases "find (\<lambda>v. id_msg v = id_msg m) (rev (reparented_messages items sid))")
  case None
  then have "\<forall>v \<in> set (reparented_messages items sid). id_msg v \<noteq> id_msg m"
    by (simp add: find_rev_None)
  moreover from assms have "(toDBMessage m)\<lparr>summaryId := sid\<rparr> \<in> set (reparented_messages items sid)"
    unfolding reparented_messages_set by blast
  ultimately show ?thesis by (auto simp: id_toDBMessage)
next
  case (Some v)
  from find_rev_Some [OF this] obtain m0 where "Message m0 \<in> set items"
    "v = (toDBMessage m0)\<lparr>summaryId := sid\<rparr>" "id_msg v = id_msg m"
    unfolding reparented_messages_set by blast
  with Some show ?thesis by (auto simp: lookup_put_all id_toDBMessage)
qed

lemma lookup_other_message:
  assumes "k \<notin> id_msg ` {m. Message m \<in> set items}"
  shows "lookup id_msg k (put_all id_msg st (reparented_messages items sid)) = lookup id_msg k st"
proof -
  have "\<forall>v \<in> set (reparented_messages items sid). id_msg v \<noteq> k"
    using assms unfolding reparented_messages_set by (auto simp: id_toDBMessage image_iff)
  then have "find (\<lambda>v. id_msg v = k) (rev (reparented_messages items sid)) = None"
    by (simp add: find_rev_None)
  then show ?thesis by (simp add: lookup_put_all)
qed

lemma lookup_reparented_summary:
  assumes "Summary s \<in> set items"
  shows "\<exists>s0. Summary s0 \<in> set items \<and> id_sum s0 = id_sum s \<and>
    lookup id_sum (id_sum s) (put_all id_sum st (new # reparented_summaries items sid)) =
      Some ((toDBSummary s0)\<lparr>parentId := sid\<rparr>)"
proof (cases "find (\<lambda>v. id_sum v = id_sum s) (rev (reparented_summaries items sid))")
  case None
  then have "\<forall>v \<in> set (reparented_summaries items sid). id_sum v \<noteq> id_sum s"
    by (simp add: find_rev_None)
  moreover from assms have "(toDBSummary s)\<lparr>parentId := sid\<rparr> \<in> set (reparented_summaries items sid)"
    unfolding reparented_summaries_set by blast
  ultimately show ?thesis by (auto simp: id_toDBSummary)
next
  case (Some v)
  from find_rev_Some [OF this] obtain s0 where "Summary s0 \<in> set items"
    "v = (toDBSummary s0)\<lparr>parentId := sid\<rparr>" "id_sum v = id_sum s"
    unfolding reparented_summaries_set by blast
  with Some show ?thesis by (auto simp: lookup_put_all id_toDBSummary find_append)
qed

lemma lookup_new_summary:
  assumes "id_sum new \<notin> id_sum ` {s. Summary s \<in> set items}"
  shows "lookup id_sum (id_sum new) (put_all id_sum st (new # reparented_summaries items sid)) =
     Some new"
proof -
  have "\<forall>v \<in> set (reparented_summaries items sid). id_sum v \<noteq> id_sum new"
    using assms unfolding reparented_summaries_set by (auto simp: id_toDBSummary image_iff)
  then have "find (\<lambda>v. id_sum v = id_sum new) (rev (reparented_summaries items sid)) = None"
    by (simp add: find_rev_None)
  then show ?thesis by (simp add: lookup_put_all find_append)
qed

lemma lookup_other_summary:
  assumes "k \<noteq> id_sum new" "k \<notin> id_sum ` {s. Summary s \<in> set items}"
  shows "lookup id_sum k (put_all id_sum st (new # reparented_summaries items sid)) =
     lookup id_sum k st"
proof -
  have "\<forall>v \<in> set (reparented_summaries items sid). id_sum v \<noteq> k"
    using assms unfolding reparented_summaries_set by (auto simp: id_toDBSummary image_iff)
  then have "find (\<lambda>v. id_sum v = k) (rev (reparented_summaries items sid)) = None"
    by (simp add: find_rev_None)
  with assms(1) show ?thesis by (simp add: lookup_put_all find_append)
qed


lemma put_sorted:
  assumes "sorted (map key xs)" "distinct (map key xs)"
  shows "sorted (map key (put key v xs)) \<and> distinct (map key (put key v xs)) \<and>
         set (put key v xs) = insert v {x \<in> set xs. key x \<noteq> key v}"
  using assms
proof (induction xs)
  case Nil
  then show ?case by simp
next
  case (Cons x xs)
  then have IH: "sorted (map key (put key v xs)) \<and> distinct (map key (put key v xs)) \<and>
         set (put key v xs) = insert v {x \<in> set xs. key x \<noteq> key v}"
    by simp
  from Cons.prems have le: "\<forall>y \<in> set xs. key x \<le> key y" and ne: "\<forall>y \<in> set xs. key x \<noteq> key y"
    by auto
  show ?case
  proof (cases "key v < key x")
    case True
    with le have "\<forall>y \<in> set xs. key v \<noteq> key y" by auto
    with True Cons.prems show ?thesis by auto
  next
    case False
    show ?thesis
    proof (cases "key v = key x")
      case True
      with Cons.prems ne show ?thesis by auto
    next
      case neq: False
      with False have "key x < key v" by simp
      with neq False IH le ne show ?thesis by auto
    qed
  qed
qed

lemma put_all_snoc: "put_all key st (vs @ [v]) = put key v (put_all key st vs)"
  by (simp add: put_all_def)

lemma put_all_sorted:
  "sorted (map key (put_all key [] vs)) \<and> distinct (map key (put_all key [] vs)) \<and>
   set (put_all key [] vs) \<subseteq> set vs \<and>
   (distinct (map key vs) \<longrightarrow> set (put_all key [] vs) = set vs)"
proof (induction vs rule: rev_induct)
  case Nil
  then show ?case by (simp add: put_all_def)
next
  case (snoc v vs)
  from put_sorted [of key "put_all key [] vs" v] snoc
  have "sorted (map key (put_all key [] (vs @ [v])))"
    and "distinct (map key (put_all key [] (vs @ [v])))"
    and s: "set (put_all key [] (vs @ [v])) = insert v {x \<in> set (put_all key [] vs). key x \<noteq> key v}"
    by (simp_all add: put_all_snoc)
  moreover from s snoc have "set (put_all key [] (vs @ [v])) \<subseteq> set (vs @ [v])" by auto
  moreover have "set (put_all key [] (vs @ [v])) = set (vs @ [v])" if "distinct (map key (vs @ [v]))"
  proof -
    from that have "distinct (map key vs)" and "\<forall>x \<in> set vs. key x \<noteq> key v"
      by (auto simp: image_iff)
    with snoc s show ?thesis by auto
  qed
  ultimately show ?case by blast
qed

lemma put_all_sort_key:
  assumes "distinct (map key vs)"
  shows "put_all key [] vs = sort_key key vs"
proof (rule map_sorted_distinct_set_unique [of key])
  from assms put_all_sorted [of key vs] have set: "set (put_all key [] vs) = set vs" by simp
  from assms have "inj_on key (set vs)" by (simp add: distinct_map)
  with set show "inj_on key (set (put_all key [] vs) \<union> set (sort_key key vs))" by simp
  show "sorted (map key (put_all key [] vs))" "distinct (map key (put_all key [] vs))"
    using put_all_sorted [of key vs] by simp_all
  show "sorted (map key (sort_key key vs))" by simp
  have "mset (map key (sort_key key vs)) = mset (map key vs)" by simp
  with assms show "distinct (map key (sort_key key vs))"
    using mset_eq_imp_distinct_iff by blast
  from set show "set (put_all key [] vs) = set (sort_key key vs)" by simp
qed

lemma import_cases:
  assumes "importDataToIndexedDB E db importedData = (r, db')"
  shows "(\<exists>e. r = Inl e \<and> db' = db) \<or>
         (r = Inr () \<and>
          summaryStore db' = put_all id_sum [] (map (convertSummary E) (data_summary importedData)) \<and>
          messageStore db' = put_all id_msg [] (map (convertMessage E) (data_message importedData)))"
  using assms
  by (auto simp: importDataToIndexedDB_def transaction_def convertImportedData_def Let_def
      split: option.splits sum.splits dest!: put_summaries_Inr put_messages_Inr)

lemma import_no_fault:
  assumes "\<forall>d q. fault E d q = None"
  shows "fst (importDataToIndexedDB E db importedData) = Inr ()"
proof -
  let ?db2 = "db\<lparr>summaryStore := [], messageStore := []\<rparr>"
  from put_summaries_no_fault [OF assms] obtain db3
    where 1: "put_summaries E ?db2 (map (convertSummary E) (data_summary importedData)) = Inr db3"
    by blast
  from put_messages_no_fault [OF assms] obtain db4
    where 2: "put_messages E db3 (map (convertMessage E) (data_message importedData)) = Inr db4"
    by blast
  from assms 1 2 show ?thesis
    by (simp add: importDataToIndexedDB_def transaction_def convertImportedData_def Let_def)
qed

lemma find_rev_distinct:
  assumes "distinct (map key vs)" "v \<in> set vs"
  shows "find (\<lambda>x. key x = key v) (rev vs) = Some v"
proof (cases "find (\<lambda>x. key x = key v) (rev vs)")
  case None
  with assms(2) show ?thesis by (auto simp: find_rev_None)
next
  case (Some w)
  from find_rev_Some [OF this] have "w \<in> set vs" "key w = key v" by simp_all
  with assms have "w = v" by (auto simp: distinct_map dest: inj_onD)
  with Some show ?thesis by simp
qed

text \<open>
  Claim C5. replaceMessages writes through one call of updateData, that is, one
  transaction. When it succeeds, the store has the new summary under its id (as long as
  no summary of the slice has that id), with the parent reference the summary came with
  (\<^verbatim>\<open>"NULL"\<close> for one made by compressMessages); under the id of every message and every
  summary of the slice it has an item of the slice with that id, its parent reference set
  to the id of the new summary; and every other record is as before. When it fails, the
  database is as it was: nothing is reparented, and the summary is absent.
\<close>

theorem C5_replaceMessages_atomic:
  assumes "replaceMessages E db items summary = (r, db')"
  shows "(\<exists>e. r = Inl e \<and> db' = db) \<or>
     (r = Inr () \<and>
      (id_sum summary \<notin> id_sum ` {s. Summary s \<in> set items} \<longrightarrow>
         lookup id_sum (id_sum summary) (summaryStore db') = Some (toDBSummary summary)) \<and>
      parentId (toDBSummary summary) = parentId summary \<and>
      (\<forall>m. Message m \<in> set items \<longrightarrow>
         (\<exists>m0. Message m0 \<in> set items \<and> id_msg m0 = id_msg m \<and>
            lookup id_msg (id_msg m) (messageStore db') =
              Some ((toDBMessage m0)\<lparr>summaryId := id_sum summary\<rparr>))) \<and>
      (\<forall>s. Summary s \<in> set items \<longrightarrow>
         (\<exists>s0. Summary s0 \<in> set items \<and> id_sum s0 = id_sum s \<and>
            lookup id_sum (id_sum s) (summaryStore db') =
              Some ((toDBSummary s0)\<lparr>parentId := id_sum summary\<rparr>))) \<and>
      (\<forall>k. k \<notin> id_msg ` {m. Message m \<in> set items} \<longrightarrow>
         lookup id_msg k (messageStore db') = lookup id_msg k (messageStore db)) \<and>
      (\<forall>k. k \<noteq> id_sum summary \<and> k \<notin> id_sum ` {s. Summary s \<in> set items} \<longrightarrow>
         lookup id_sum k (summaryStore db') = lookup id_sum k (summaryStore db)))"
proof -
  let ?sid = "id_sum summary"
  from assms have "updateData E db (toDBSummary summary # reparented_summaries items ?sid)
      (reparented_messages items ?sid) = (r, db')"
    by (simp add: replaceMessages_def)
  from updateData_cases [OF this] show ?thesis
  proof
    assume "\<exists>e. r = Inl e \<and> db' = db"
    then show ?thesis by simp
  next
    assume ok: "r = Inr () \<and>
      summaryStore db' = put_all id_sum (summaryStore db)
        (toDBSummary summary # reparented_summaries items ?sid) \<and>
      messageStore db' = put_all id_msg (messageStore db) (reparented_messages items ?sid)"
    have sid: "id_sum (toDBSummary summary) = ?sid" by (simp add: toDBSummary_def)
    have 1: "?sid \<notin> id_sum ` {s. Summary s \<in> set items} \<longrightarrow>
         lookup id_sum ?sid (summaryStore db') = Some (toDBSummary summary)"
      using ok lookup_new_summary [of "toDBSummary summary" items "summaryStore db" ?sid]
      by (simp add: sid)
    have 2: "\<forall>m. Message m \<in> set items \<longrightarrow>
         (\<exists>m0. Message m0 \<in> set items \<and> id_msg m0 = id_msg m \<and>
            lookup id_msg (id_msg m) (messageStore db') =
              Some ((toDBMessage m0)\<lparr>summaryId := ?sid\<rparr>))"
      using ok lookup_reparented_message [of _ items "messageStore db" ?sid] by simp
    have 3: "\<forall>s. Summary s \<in> set items \<longrightarrow>
         (\<exists>s0. Summary s0 \<in> set items \<and> id_sum s0 = id_sum s \<and>
            lookup id_sum (id_sum s) (summaryStore db') =
              Some ((toDBSummary s0)\<lparr>parentId := ?sid\<rparr>))"
      using ok lookup_reparented_summary [of _ items "summaryStore db" "toDBSummary summary" ?sid]
      by simp
    have 4: "\<forall>k. k \<notin> id_msg ` {m. Message m \<in> set items} \<longrightarrow>
         lookup id_msg k (messageStore db') = lookup id_msg k (messageStore db)"
      using ok lookup_other_message [of _ items "messageStore db" ?sid] by simp
    have 5: "\<forall>k. k \<noteq> ?sid \<and> k \<notin> id_sum ` {s. Summary s \<in> set items} \<longrightarrow>
         lookup id_sum k (summaryStore db') = lookup id_sum k (summaryStore db)"
      using ok lookup_other_summary [of _ "toDBSummary summary" items "summaryStore db" ?sid]
      by (simp add: sid)
    have 6: "parentId (toDBSummary summary) = parentId summary" by (simp add: toDBSummary_def)
    from ok 1 2 3 4 5 6 show ?thesis by blast
  qed
qed

text \<open>
  The witness: the first of two messages is replaced by a summary; the first of two
  summaries is replaced by a summary of the next level; and the replacement of a message
  fails in an environment where the put of a message fails, the put of the summary having
  succeeded before it in the same transaction.
\<close>

theorem C5_replaceMessages_atomic_witness:
  "replaceMessages example_env example_db [Message (example_message ''m1'' 1 4000)]
     (example_summary ''s1'' 1 1 1 9) =
     (Inr (),
      \<lparr>summaryStore = [toDBSummary (example_summary ''s1'' 1 1 1 9)],
       messageStore = [(toDBMessage (example_message ''m1'' 1 4000))\<lparr>summaryId := ''s1''\<rparr>,
                       toDBMessage (example_message ''m2'' 2 4000)]\<rparr>) \<and>
   parentId (toDBSummary (example_summary ''s1'' 1 1 1 9)) = ''NULL'' \<and>
   replaceMessages example_env example_db2 [Summary (example_summary ''s1'' 1 2 1 5000)]
     (example_summary ''t'' 1 2 2 9) =
     (Inr (),
      \<lparr>summaryStore = [(toDBSummary (example_summary ''s1'' 1 2 1 5000))\<lparr>parentId := ''t''\<rparr>,
                       toDBSummary (example_summary ''s2'' 3 4 1 5000),
                       toDBSummary (example_summary ''t'' 1 2 2 9)],
       messageStore = []\<rparr>) \<and>
   replaceMessages faulty_env example_db [Message (example_message ''m1'' 1 4000)]
     (example_summary ''s1'' 1 1 1 9) =
     (Inl (DOMException ''QuotaExceededError''), example_db)"
proof -
  have ok: "replaceMessages example_env example_db [Message (example_message ''m1'' 1 4000)]
     (example_summary ''s1'' 1 1 1 9) =
     (Inr (),
      \<lparr>summaryStore = [toDBSummary (example_summary ''s1'' 1 1 1 9)],
       messageStore = [(toDBMessage (example_message ''m1'' 1 4000))\<lparr>summaryId := ''s1''\<rparr>,
                       toDBMessage (example_message ''m2'' 2 4000)]\<rparr>)"
    by (simp add: replaceMessages_def updateData_def transaction_def example_env_def
        example_db_def example_message_def example_summary_def toDBMessage_def toDBSummary_def)
  have ok2: "replaceMessages example_env example_db2 [Summary (example_summary ''s1'' 1 2 1 5000)]
     (example_summary ''t'' 1 2 2 9) =
     (Inr (),
      \<lparr>summaryStore = [(toDBSummary (example_summary ''s1'' 1 2 1 5000))\<lparr>parentId := ''t''\<rparr>,
                       toDBSummary (example_summary ''s2'' 3 4 1 5000),
                       toDBSummary (example_summary ''t'' 1 2 2 9)],
       messageStore = []\<rparr>)"
    by (simp add: replaceMessages_def updateData_def transaction_def example_env_def
        example_db2_def example_summary_def toDBSummary_def)
  have failed: "replaceMessages faulty_env example_db [Message (example_message ''m1'' 1 4000)]
     (example_summary ''s1'' 1 1 1 9) =
     (Inl (DOMException ''QuotaExceededError''), example_db)"
    by (simp add: replaceMessages_def updateData_def transaction_def faulty_env_def
        example_env_def)
  from C5_replaceMessages_atomic [OF ok] C5_replaceMessages_atomic [OF ok2]
    C5_replaceMessages_atomic [OF failed] ok ok2 failed
  show ?thesis by (simp add: toDBSummary_def example_summary_def)
qed

text \<open>
  Claim C8, as amended. updateData writes with \<^verbatim>\<open>put\<close>, which does not reject the id of an
  existing record: it succeeds whenever no request to IndexedDB fails, and afterwards
  the store has, under every id written, the last record written with that id, in the
  place of any record that had the id before; records with other ids stay. When it fails
  the database is as it was.
\<close>

theorem C8_updateData_overwrites:
  "((\<forall>d q. fault E d q = None) \<longrightarrow> fst (updateData E db summaries messages) = Inr ()) \<and>
   (updateData E db summaries messages = (Inr (), db') \<longrightarrow>
      (\<forall>k. lookup id_msg k (messageStore db') =
         (case find (\<lambda>v. id_msg v = k) (rev messages) of
            Some v \<Rightarrow> Some v
          | None \<Rightarrow> lookup id_msg k (messageStore db))) \<and>
      (\<forall>k. lookup id_sum k (summaryStore db') =
         (case find (\<lambda>v. id_sum v = k) (rev summaries) of
            Some v \<Rightarrow> Some v
          | None \<Rightarrow> lookup id_sum k (summaryStore db))) \<and>
      (distinct (map id_msg messages) \<longrightarrow>
         (\<forall>m \<in> set messages. lookup id_msg (id_msg m) (messageStore db') = Some m)) \<and>
      (distinct (map id_sum summaries) \<longrightarrow>
         (\<forall>s \<in> set summaries. lookup id_sum (id_sum s) (summaryStore db') = Some s))) \<and>
   (updateData E db summaries messages = (Inl e, db') \<longrightarrow> db' = db)"
proof -
  have "lookup id_msg k (messageStore db') =
         (case find (\<lambda>v. id_msg v = k) (rev messages) of
            Some v \<Rightarrow> Some v
          | None \<Rightarrow> lookup id_msg k (messageStore db))"
    and "lookup id_sum k (summaryStore db') =
         (case find (\<lambda>v. id_sum v = k) (rev summaries) of
            Some v \<Rightarrow> Some v
          | None \<Rightarrow> lookup id_sum k (summaryStore db))"
    if "updateData E db summaries messages = (Inr (), db')" for k
    using updateData_cases [OF that] by (simp_all add: lookup_put_all)
  moreover have "db' = db" if "updateData E db summaries messages = (Inl e, db')"
    using updateData_cases [OF that] by simp
  ultimately show ?thesis
    using updateData_no_fault [of E db summaries messages]
    by (simp add: find_rev_distinct)
qed

theorem C8_updateData_overwrites_witness:
  "updateData example_env example_db [toDBSummary (example_summary ''s1'' 1 1 1 9)]
     [toDBMessage (example_message ''m2'' 3 50)] =
     (Inr (),
      \<lparr>summaryStore = [toDBSummary (example_summary ''s1'' 1 1 1 9)],
       messageStore = [toDBMessage (example_message ''m1'' 1 4000),
                       toDBMessage (example_message ''m2'' 3 50)]\<rparr>) \<and>
   updateData faulty_env example_db [] [toDBMessage (example_message ''m2'' 3 50)] =
     (Inl (DOMException ''QuotaExceededError''), example_db)"
proof -
  have ok: "updateData example_env example_db [toDBSummary (example_summary ''s1'' 1 1 1 9)]
     [toDBMessage (example_message ''m2'' 3 50)] =
     (Inr (),
      \<lparr>summaryStore = [toDBSummary (example_summary ''s1'' 1 1 1 9)],
       messageStore = [toDBMessage (example_message ''m1'' 1 4000),
                       toDBMessage (example_message ''m2'' 3 50)]\<rparr>)"
    by (simp add: updateData_def transaction_def example_env_def example_db_def
        example_message_def example_summary_def toDBMessage_def toDBSummary_def)
  have failed: "updateData faulty_env example_db [] [toDBMessage (example_message ''m2'' 3 50)] =
     (Inl (DOMException ''QuotaExceededError''), example_db)"
    by (simp add: updateData_def transaction_def faulty_env_def example_env_def)
  from C8_updateData_overwrites [of example_env example_db
      "[toDBSummary (example_summary ''s1'' 1 1 1 9)]" "[toDBMessage (example_message ''m2'' 3 50)]"
      "\<lparr>summaryStore = [toDBSummary (example_summary ''s1'' 1 1 1 9)],
        messageStore = [toDBMessage (example_message ''m1'' 1 4000),
                        toDBMessage (example_message ''m2'' 3 50)]\<rparr>"
      "DOMException ''QuotaExceededError''"]
    C8_updateData_overwrites [of faulty_env example_db "[]"
      "[toDBMessage (example_message ''m2'' 3 50)]" example_db "DOMException ''QuotaExceededError''"]
    ok failed
  show ?thesis by simp
qed

text \<open>
  The claim C8 as the specification states it fails: the store has a message \<open>m1\<close>, a
  message with the same id and other contents is written, the write succeeds, and the
  new message has taken the place of the old one.
\<close>

theorem C8_id_collision_counterexample:
  "lookup id_msg ''m1'' (messageStore example_db) =
     Some (toDBMessage (example_message ''m1'' 1 4000)) \<and>
   updateData example_env example_db [] [toDBMessage (example_message ''m1'' 9 77)] =
     (Inr (),
      \<lparr>summaryStore = [],
       messageStore = [toDBMessage (example_message ''m1'' 9 77),
                       toDBMessage (example_message ''m2'' 2 4000)]\<rparr>) \<and>
   toDBMessage (example_message ''m1'' 9 77) \<noteq> toDBMessage (example_message ''m1'' 1 4000)"
  by (simp add: updateData_def transaction_def lookup_def example_env_def example_db_def
      example_message_def toDBMessage_def)



section \<open>Properties of the assembler\<close>

lemma mset_insert_sorted: "mset (insert_sorted cmp x ys) = add_mset x (mset ys)"
  by (induction ys) (auto split: option.splits)

lemma mset_array_sort: "mset (array_sort cmp xs) = mset xs"
  unfolding array_sort_def by (induction xs) (simp_all add: mset_insert_sorted)

lemma set_insert_sorted: "set (insert_sorted cmp x ys) = insert x (set ys)"
  using mset_insert_sorted [of cmp x ys] by (metis set_mset_add_mset_insert set_mset_mset)

lemma compareFn_valid:
  "item_timestamp a \<noteq> InvalidDate \<Longrightarrow> item_timestamp b \<noteq> InvalidDate \<Longrightarrow>
   compareFn a b = Some (timeValue a - timeValue b)"
  by (cases "item_timestamp a"; cases "item_timestamp b") (simp_all add: compareFn_def timeValue_def)

lemma sorted_insert_sorted:
  assumes "item_timestamp x \<noteq> InvalidDate" "\<forall>y \<in> set ys. item_timestamp y \<noteq> InvalidDate"
    and "sorted (map timeValue ys)"
  shows "sorted (map timeValue (insert_sorted compareFn x ys))"
  using assms
proof (induction ys)
  case Nil
  then show ?case by simp
next
  case (Cons y ys)
  then have cmp: "compareFn x y = Some (timeValue x - timeValue y)"
    by (simp add: compareFn_valid)
  from Cons have IH: "sorted (map timeValue (insert_sorted compareFn x ys))" by simp
  show ?case
  proof (cases "timeValue x - timeValue y > 0")
    case True
    with cmp IH Cons.prems show ?thesis
      by (auto simp: set_insert_sorted)
  next
    case False
    with cmp Cons.prems show ?thesis by auto
  qed
qed

lemma sorted_array_sort:
  "\<forall>x \<in> set xs. item_timestamp x \<noteq> InvalidDate \<Longrightarrow>
   sorted (map timeValue (array_sort compareFn xs))"
proof (induction xs)
  case Nil
  then show ?case by (simp add: array_sort_def)
next
  case (Cons x xs)
  then have "sorted (map timeValue (array_sort compareFn xs))" by simp
  moreover have "\<forall>y \<in> set (array_sort compareFn xs). item_timestamp y \<noteq> InvalidDate"
    using Cons.prems mset_array_sort [of compareFn xs] by (metis list.set_intros(2) set_mset_mset)
  ultimately have "sorted (map timeValue (insert_sorted compareFn x (array_sort compareFn xs)))"
    using Cons.prems by (intro sorted_insert_sorted) simp_all
  then show ?case by (simp add: array_sort_def)
qed

lemma binary_search_bounds:
  "left \<le> right \<Longrightarrow>
   left \<le> binary_search cmp pivot workArray left right \<and>
   binary_search cmp pivot workArray left right \<le> right"
proof (induction cmp pivot workArray left right rule: binary_search.induct)
  case (1 cmp pivot workArray left right)
  show ?case
  proof (cases "left < right")
    case False
    with "1.prems" show ?thesis by (simp add: binary_search.simps)
  next
    case True
    let ?mid = "left + (right - left) div 2"
    have le: "left \<le> ?mid" "?mid + 1 \<le> right" using True by auto
    show ?thesis
    proof (cases "order_v8 cmp pivot (workArray ! ?mid) < 0")
      case T2: True
      from "1.IH"(1) [OF True refl T2] le
      show ?thesis using True T2 by (subst (1 2) binary_search.simps) (simp add: Let_def)
    next
      case F2: False
      from "1.IH"(2) [OF True refl F2] le
      show ?thesis using True F2 by (subst (1 2) binary_search.simps) (simp add: Let_def)
    qed
  qed
qed

lemma mset_insert_pivot:
  assumes "start < length workArray"
  shows "mset (insert_pivot cmp start workArray) = mset workArray"
    and "length (insert_pivot cmp start workArray) = length workArray"
proof -
  let ?left = "binary_search cmp (workArray ! start) workArray 0 start"
  have le: "?left \<le> start" using binary_search_bounds [of 0 start] by simp
  have "take start workArray = take ?left workArray @ take (start - ?left) (drop ?left workArray)"
    using le take_add [of ?left "start - ?left" workArray] by simp
  moreover have "workArray = take start workArray @ workArray ! start # drop (Suc start) workArray"
    using assms by (rule id_take_nth_drop)
  ultimately have eq: "workArray = (take ?left workArray @ take (start - ?left) (drop ?left workArray)) @
      workArray ! start # drop (Suc start) workArray" by simp
  have "mset ((take ?left workArray @ take (start - ?left) (drop ?left workArray)) @
      workArray ! start # drop (Suc start) workArray) = mset (insert_pivot cmp start workArray)"
    by (simp add: insert_pivot_def Let_def)
  with eq show "mset (insert_pivot cmp start workArray) = mset workArray" by simp
  have "length ((take ?left workArray @ take (start - ?left) (drop ?left workArray)) @
      workArray ! start # drop (Suc start) workArray) = length (insert_pivot cmp start workArray)"
    by (simp add: insert_pivot_def Let_def)
  with eq show "length (insert_pivot cmp start workArray) = length workArray" by simp
qed

lemma mset_fold_insert_pivot:
  "\<forall>i \<in> set is. i < length workArray \<Longrightarrow>
   mset (fold (insert_pivot cmp) is workArray) = mset workArray"
proof (induction "is" arbitrary: workArray)
  case Nil
  show ?case by simp
next
  case (Cons i "is")
  from Cons.prems have i: "i < length workArray" by simp
  from Cons.prems have "\<forall>j \<in> set is. j < length (insert_pivot cmp i workArray)"
    by (simp add: mset_insert_pivot(2) [OF i])
  from Cons.IH [OF this] show ?case by (simp add: mset_insert_pivot(1) [OF i])
qed

lemma CountAndMakeRun_perm:
  "mset (fst (CountAndMakeRun cmp xs)) = mset xs \<and> length (fst (CountAndMakeRun cmp xs)) = length xs"
proof -
  have a: "mset (take n ys) + mset (drop n ys) = mset ys" for n and ys :: "'a list"
    by (metis append_take_drop_id mset_append)
  show ?thesis
    by (auto simp: CountAndMakeRun_def Let_def a split: list.splits)
qed

lemma mset_ArrayTimSort: "mset (ArrayTimSort cmp xs) = mset xs"
proof -
  obtain ws n where c: "CountAndMakeRun cmp xs = (ws, n)" by (cases "CountAndMakeRun cmp xs")
  with CountAndMakeRun_perm [of cmp xs] have p: "mset ws = mset xs" by simp
  have "mset (fold (insert_pivot cmp) [n..<length ws] ws) = mset ws"
    by (rule mset_fold_insert_pivot) simp
  with p c show ?thesis by (simp add: ArrayTimSort_def BinaryInsertionSort_def)
qed

lemma consistent_valid:
  "\<forall>x \<in> set xs. item_timestamp x \<noteq> InvalidDate \<Longrightarrow> consistent_on compareFn xs"
  by (simp add: consistent_on_def list_all_iff compareFn_valid)

lemma getChat_Inr:
  assumes "getChat E db = Inr chat"
  shows "chat = Array_prototype_sort E compareFn
     (map (\<lambda>message. Message (toChatMessage message))
        (filter (\<lambda>m. summaryId m = ''NULL'') (messageStore db)) @
      map (\<lambda>summary. Summary (toChatSummary summary))
        (filter (\<lambda>s. parentId s = ''NULL'') (summaryStore db)))"
  using assms
  by (auto simp: getChat_def getActiveMessages_def getActiveSummaries_def Let_def
      split: option.splits sum.splits)

lemma getChat_no_fault:
  assumes "\<forall>d q. fault E d q = None"
  shows "getChat E db = Inr (Array_prototype_sort E compareFn
     (map (\<lambda>message. Message (toChatMessage message))
        (filter (\<lambda>m. summaryId m = ''NULL'') (messageStore db)) @
      map (\<lambda>summary. Summary (toChatSummary summary))
        (filter (\<lambda>s. parentId s = ''NULL'') (summaryStore db))))"
  using assms
  by (simp add: getChat_def getActiveMessages_def getActiveSummaries_def Let_def)

lemma active_items_valid:
  assumes "\<forall>m \<in> set (messageStore db). summaryId m = ''NULL'' \<longrightarrow> createdAt m \<noteq> InvalidDate"
    and "\<forall>s \<in> set (summaryStore db). parentId s = ''NULL'' \<longrightarrow> dateTo s \<noteq> InvalidDate"
  shows "\<forall>x \<in> set (map (\<lambda>message. Message (toChatMessage message))
        (filter (\<lambda>m. summaryId m = ''NULL'') (messageStore db)) @
      map (\<lambda>summary. Summary (toChatSummary summary))
        (filter (\<lambda>s. parentId s = ''NULL'') (summaryStore db))). item_timestamp x \<noteq> InvalidDate"
  using assms by (auto simp: toChatMessage_def toChatSummary_def)

lemma getChat_two_items:
  assumes "\<forall>d q. fault E d q = None" "messageStore db = [m]" "summaryStore db = [s]"
    "summaryId m = ''NULL''" "parentId s = ''NULL''"
    "createdAt m = Date T1" "dateTo s = Date T2"
  shows "getChat E db =
     Inr (if T1 \<le> T2 then [Message (toChatMessage m), Summary (toChatSummary s)]
          else [Summary (toChatSummary s), Message (toChatMessage m)])"
  using assms
  by (simp add: getChat_no_fault Array_prototype_sort_def consistent_on_def array_sort_def
      compareFn_def toChatMessage_def toChatSummary_def)

text \<open>
  Claim C6, as amended. getChat succeeds whenever no request to IndexedDB fails, and the
  \<^verbatim>\<open>timestamp\<close> it gives an item is the ordering timestamp (\<open>createdAt\<close> of a message,
  \<open>dateTo\<close> of a summary). When the ordering timestamps of the active records are all
  valid dates, the chat it returns is, as a multiset, the active messages together with
  the active summaries, in ascending order of the timestamps. With an Invalid Date among
  them the comparator returns NaN and the order is the engine's; the chat still is the
  active records if the engine's sort permutes its array. One active message with
  timestamp \<open>T1\<close> and one active summary with timestamp \<open>T2\<close> give \<open>[Message, Summary]\<close> for
  \<open>T1 < T2\<close> and \<open>[Summary, Message]\<close> for \<open>T2 < T1\<close>.
\<close>

theorem C6_getChat_sorted_union:
  "((\<forall>d q. fault E d q = None) \<longrightarrow> (\<exists>chat. getChat E db = Inr chat)) \<and>
   (\<forall>m. timestamp_msg (toChatMessage m) = createdAt m) \<and>
   (\<forall>s. timestamp_sum (toChatSummary s) = dateTo s) \<and>
   (getChat E db = Inr chat \<and>
    (\<forall>m \<in> set (messageStore db). summaryId m = ''NULL'' \<longrightarrow> createdAt m \<noteq> InvalidDate) \<and>
    (\<forall>s \<in> set (summaryStore db). parentId s = ''NULL'' \<longrightarrow> dateTo s \<noteq> InvalidDate) \<longrightarrow>
      mset chat =
        mset (map (\<lambda>message. Message (toChatMessage message))
                (filter (\<lambda>m. summaryId m = ''NULL'') (messageStore db))) +
        mset (map (\<lambda>summary. Summary (toChatSummary summary))
                (filter (\<lambda>s. parentId s = ''NULL'') (summaryStore db))) \<and>
      (\<forall>x \<in> set chat. item_timestamp x \<noteq> InvalidDate) \<and>
      sorted (map timeValue chat)) \<and>
   (getChat E db = Inr chat \<and> (\<forall>cmp xs. mset (engineSort E cmp xs) = mset xs) \<longrightarrow>
      mset chat =
        mset (map (\<lambda>message. Message (toChatMessage message))
                (filter (\<lambda>m. summaryId m = ''NULL'') (messageStore db))) +
        mset (map (\<lambda>summary. Summary (toChatSummary summary))
                (filter (\<lambda>s. parentId s = ''NULL'') (summaryStore db)))) \<and>
   ((\<forall>d q. fault E d q = None) \<and> messageStore db = [m] \<and> summaryStore db = [s] \<and>
    summaryId m = ''NULL'' \<and> parentId s = ''NULL'' \<and>
    createdAt m = Date T1 \<and> dateTo s = Date T2 \<and> T1 < T2 \<longrightarrow>
      getChat E db = Inr [Message (toChatMessage m), Summary (toChatSummary s)]) \<and>
   ((\<forall>d q. fault E d q = None) \<and> messageStore db = [m] \<and> summaryStore db = [s] \<and>
    summaryId m = ''NULL'' \<and> parentId s = ''NULL'' \<and>
    createdAt m = Date T1 \<and> dateTo s = Date T2 \<and> T2 < T1 \<longrightarrow>
      getChat E db = Inr [Summary (toChatSummary s), Message (toChatMessage m)])"
proof -
  let ?items = "map (\<lambda>message. Message (toChatMessage message))
        (filter (\<lambda>m. summaryId m = ''NULL'') (messageStore db)) @
      map (\<lambda>summary. Summary (toChatSummary summary))
        (filter (\<lambda>s. parentId s = ''NULL'') (summaryStore db))"
  have 1: "(\<forall>d q. fault E d q = None) \<longrightarrow> (\<exists>chat. getChat E db = Inr chat)"
    using getChat_no_fault [of E db] by simp
  have 2: "mset chat = mset (map (\<lambda>message. Message (toChatMessage message))
                (filter (\<lambda>m. summaryId m = ''NULL'') (messageStore db))) +
        mset (map (\<lambda>summary. Summary (toChatSummary summary))
                (filter (\<lambda>s. parentId s = ''NULL'') (summaryStore db))) \<and>
      (\<forall>x \<in> set chat. item_timestamp x \<noteq> InvalidDate) \<and>
      sorted (map timeValue chat)"
    if get: "getChat E db = Inr chat"
      and vm: "\<forall>m \<in> set (messageStore db). summaryId m = ''NULL'' \<longrightarrow> createdAt m \<noteq> InvalidDate"
      and vs: "\<forall>s \<in> set (summaryStore db). parentId s = ''NULL'' \<longrightarrow> dateTo s \<noteq> InvalidDate"
  proof -
    from active_items_valid [OF vm vs]
    have valid: "\<forall>x \<in> set ?items. item_timestamp x \<noteq> InvalidDate" .
    from getChat_Inr [OF get] consistent_valid [OF valid]
    have chat: "chat = array_sort compareFn ?items"
      by (simp add: Array_prototype_sort_def)
    then have m: "mset chat = mset ?items" by (simp add: mset_array_sort)
    then have "set chat = set ?items" by (metis set_mset_mset)
    with valid have v: "\<forall>x \<in> set chat. item_timestamp x \<noteq> InvalidDate" by simp
    from sorted_array_sort [OF valid] have "sorted (map timeValue chat)"
      unfolding chat .
    with m v show ?thesis by simp
  qed
  have 3: "mset chat = mset (map (\<lambda>message. Message (toChatMessage message))
                (filter (\<lambda>m. summaryId m = ''NULL'') (messageStore db))) +
        mset (map (\<lambda>summary. Summary (toChatSummary summary))
                (filter (\<lambda>s. parentId s = ''NULL'') (summaryStore db)))"
    if get: "getChat E db = Inr chat" and perm: "\<forall>cmp xs. mset (engineSort E cmp xs) = mset xs"
  proof -
    from getChat_Inr [OF get] have "chat = Array_prototype_sort E compareFn ?items" .
    with perm have "mset chat = mset ?items"
      by (simp add: Array_prototype_sort_def mset_array_sort)
    then show ?thesis by simp
  qed
  have 4: "getChat E db = Inr [Message (toChatMessage m), Summary (toChatSummary s)]"
    if "\<forall>d q. fault E d q = None" "messageStore db = [m]" "summaryStore db = [s]"
      "summaryId m = ''NULL''" "parentId s = ''NULL''"
      "createdAt m = Date T1" "dateTo s = Date T2" "T1 < T2"
    using getChat_two_items [OF that(1-7)] that(8) by simp
  have 5: "getChat E db = Inr [Summary (toChatSummary s), Message (toChatMessage m)]"
    if "\<forall>d q. fault E d q = None" "messageStore db = [m]" "summaryStore db = [s]"
      "summaryId m = ''NULL''" "parentId s = ''NULL''"
      "createdAt m = Date T1" "dateTo s = Date T2" "T2 < T1"
    using getChat_two_items [OF that(1-7)] that(8) by simp
  have 6: "timestamp_msg (toChatMessage m') = createdAt m'" for m'
    by (simp add: toChatMessage_def)
  have 7: "timestamp_sum (toChatSummary s') = dateTo s'" for s'
    by (simp add: toChatSummary_def)
  from 1 2 3 4 5 6 7 show ?thesis by blast
qed

text \<open>
  The witness: the database that the import of the example document leaves, with a
  message at 1 and a summary at 3; a database with a summary at 1 and a message at 3,
  which come out in the other order; and a database with messages at 5 and 1 and a
  summary at 3, where the chat is neither the messages followed by the summary nor in the
  order of the ids.
\<close>

theorem C6_getChat_sorted_union_witness:
  "getChat example_env
     \<lparr>summaryStore = [toDBSummary (example_summary ''y'' 2 3 1 5)],
      messageStore = [toDBMessage (example_message ''x'' 1 7)]\<rparr> =
     Inr [Message (example_message ''x'' 1 7), Summary (example_summary ''y'' 2 3 1 5)] \<and>
   getChat example_env
     \<lparr>summaryStore = [toDBSummary (example_summary ''y'' 1 1 1 5)],
      messageStore = [toDBMessage (example_message ''x'' 3 7)]\<rparr> =
     Inr [Summary (example_summary ''y'' 1 1 1 5), Message (example_message ''x'' 3 7)] \<and>
   getChat example_env
     \<lparr>summaryStore = [toDBSummary (example_summary ''s1'' 2 3 1 5)],
      messageStore = [toDBMessage (example_message ''m1'' 5 7),
                      toDBMessage (example_message ''m2'' 1 7)]\<rparr> =
     Inr [Message (example_message ''m2'' 1 7), Summary (example_summary ''s1'' 2 3 1 5),
          Message (example_message ''m1'' 5 7)] \<and>
   map timeValue
     [Message (example_message ''m2'' 1 7), Summary (example_summary ''s1'' 2 3 1 5),
      Message (example_message ''m1'' 5 7)] = [1, 3, 5]"
proof -
  let ?E = example_env
  let ?db1 = "\<lparr>summaryStore = [toDBSummary (example_summary ''y'' 2 3 1 5)],
      messageStore = [toDBMessage (example_message ''x'' 1 7)]\<rparr>"
  let ?db2 = "\<lparr>summaryStore = [toDBSummary (example_summary ''y'' 1 1 1 5)],
      messageStore = [toDBMessage (example_message ''x'' 3 7)]\<rparr>"
  let ?db3 = "\<lparr>summaryStore = [toDBSummary (example_summary ''s1'' 2 3 1 5)],
      messageStore = [toDBMessage (example_message ''m1'' 5 7),
                      toDBMessage (example_message ''m2'' 1 7)]\<rparr>"
  let ?chat3 = "[Message (example_message ''m2'' 1 7), Summary (example_summary ''s1'' 2 3 1 5),
          Message (example_message ''m1'' 5 7)]"
  have nf: "\<forall>d q. fault ?E d q = None" by (simp add: example_env_def)
  have perm: "\<forall>cmp xs. mset (engineSort ?E cmp xs) = mset xs"
    by (simp add: example_env_def mset_ArrayTimSort)
  have up: "toChatMessage (toDBMessage (example_message i t c)) = example_message i t c"
    "toChatSummary (toDBSummary (example_summary j t1 t2 l c)) = example_summary j t1 t2 l c"
    for i j t t1 t2 l c
    by (simp_all add: toChatMessage_def toDBMessage_def toChatSummary_def toDBSummary_def
        example_message_def example_summary_def)
  have h1: "(\<forall>d q. fault ?E d q = None) \<and>
      messageStore ?db1 = [toDBMessage (example_message ''x'' 1 7)] \<and>
      summaryStore ?db1 = [toDBSummary (example_summary ''y'' 2 3 1 5)] \<and>
      summaryId (toDBMessage (example_message ''x'' 1 7)) = ''NULL'' \<and>
      parentId (toDBSummary (example_summary ''y'' 2 3 1 5)) = ''NULL'' \<and>
      createdAt (toDBMessage (example_message ''x'' 1 7)) = Date 1 \<and>
      dateTo (toDBSummary (example_summary ''y'' 2 3 1 5)) = Date 3 \<and> (1::int) < 3"
    using nf by (simp add: toDBMessage_def toDBSummary_def example_message_def example_summary_def)
  have h2: "(\<forall>d q. fault ?E d q = None) \<and>
      messageStore ?db2 = [toDBMessage (example_message ''x'' 3 7)] \<and>
      summaryStore ?db2 = [toDBSummary (example_summary ''y'' 1 1 1 5)] \<and>
      summaryId (toDBMessage (example_message ''x'' 3 7)) = ''NULL'' \<and>
      parentId (toDBSummary (example_summary ''y'' 1 1 1 5)) = ''NULL'' \<and>
      createdAt (toDBMessage (example_message ''x'' 3 7)) = Date 3 \<and>
      dateTo (toDBSummary (example_summary ''y'' 1 1 1 5)) = Date 1 \<and> (1::int) < 3"
    using nf by (simp add: toDBMessage_def toDBSummary_def example_message_def example_summary_def)
  from C6_getChat_sorted_union [of ?E ?db1 _ "toDBMessage (example_message ''x'' 1 7)"
      "toDBSummary (example_summary ''y'' 2 3 1 5)" 1 3] h1
  have a: "getChat ?E ?db1 =
      Inr [Message (toChatMessage (toDBMessage (example_message ''x'' 1 7))),
           Summary (toChatSummary (toDBSummary (example_summary ''y'' 2 3 1 5)))]"
    by blast
  from C6_getChat_sorted_union [of ?E ?db2 _ "toDBMessage (example_message ''x'' 3 7)"
      "toDBSummary (example_summary ''y'' 1 1 1 5)" 3 1] h2
  have b: "getChat ?E ?db2 =
      Inr [Summary (toChatSummary (toDBSummary (example_summary ''y'' 1 1 1 5))),
           Message (toChatMessage (toDBMessage (example_message ''x'' 3 7)))]"
    by blast
  have c: "getChat ?E ?db3 = Inr ?chat3"
    by (simp add: getChat_def getActiveMessages_def getActiveSummaries_def
        Array_prototype_sort_def consistent_on_def array_sort_def compareFn_def
        toChatMessage_def toDBMessage_def toChatSummary_def toDBSummary_def
        example_message_def example_summary_def example_env_def)
  have h3: "getChat ?E ?db3 = Inr ?chat3 \<and>
      (\<forall>m \<in> set (messageStore ?db3). summaryId m = ''NULL'' \<longrightarrow> createdAt m \<noteq> InvalidDate) \<and>
      (\<forall>s \<in> set (summaryStore ?db3). parentId s = ''NULL'' \<longrightarrow> dateTo s \<noteq> InvalidDate)"
    using c by (simp add: toDBMessage_def toDBSummary_def example_message_def example_summary_def)
  from C6_getChat_sorted_union [of ?E ?db3 ?chat3] h3 perm
  have "sorted (map timeValue ?chat3)" by blast
  moreover have d: "map timeValue ?chat3 = [1, 3, 5]"
    by (simp add: timeValue_def example_message_def example_summary_def)
  ultimately show ?thesis using a b c by (simp add: up)
qed

text \<open>
  The claim C6 as the specification states it fails when an ordering timestamp is an
  Invalid Date, which the import stores without a check. The three messages of the
  document come out of the store in the order of their ids; every comparison with the
  second is NaN, which V8 reads as 0: it finds the three messages to be one ascending
  run and leaves them where they are, and the chat has the message of time 2 before the
  message of time 1.
\<close>

theorem C6_invalid_date_counterexample:
  "importDataToIndexedDB example_env example_db invalid_date_document =
     (Inr (),
      \<lparr>summaryStore = [],
       messageStore =
         [\<lparr>id_msg = ''a'', createdAt = Date 2, userContent = ''two'',
           assistantContent = ''hi'', tokensCount_msg = 7, summaryId = ''NULL''\<rparr>,
          \<lparr>id_msg = ''b'', createdAt = InvalidDate, userContent = ''when'',
           assistantContent = ''hi'', tokensCount_msg = 7, summaryId = ''NULL''\<rparr>,
          \<lparr>id_msg = ''c'', createdAt = Date 1, userContent = ''one'',
           assistantContent = ''hi'', tokensCount_msg = 7, summaryId = ''NULL''\<rparr>]\<rparr>) \<and>
   getChat example_env
     (snd (importDataToIndexedDB example_env example_db invalid_date_document)) =
     Inr [Message \<lparr>id_msg = ''a'', createdAt = Date 2, userContent = ''two'',
            assistantContent = ''hi'', tokensCount_msg = 7, summaryId = ''NULL'',
            timestamp_msg = Date 2\<rparr>,
          Message \<lparr>id_msg = ''b'', createdAt = InvalidDate, userContent = ''when'',
            assistantContent = ''hi'', tokensCount_msg = 7, summaryId = ''NULL'',
            timestamp_msg = InvalidDate\<rparr>,
          Message \<lparr>id_msg = ''c'', createdAt = Date 1, userContent = ''one'',
            assistantContent = ''hi'', tokensCount_msg = 7, summaryId = ''NULL'',
            timestamp_msg = Date 1\<rparr>] \<and>
   compareFn
     (Message \<lparr>id_msg = ''b'', createdAt = InvalidDate, userContent = ''when'',
        assistantContent = ''hi'', tokensCount_msg = 7, summaryId = ''NULL'',
        timestamp_msg = InvalidDate\<rparr>)
     (Message \<lparr>id_msg = ''a'', createdAt = Date 2, userContent = ''two'',
        assistantContent = ''hi'', tokensCount_msg = 7, summaryId = ''NULL'',
        timestamp_msg = Date 2\<rparr>) = None \<and>
   compareFn
     (Message \<lparr>id_msg = ''c'', createdAt = Date 1, userContent = ''one'',
        assistantContent = ''hi'', tokensCount_msg = 7, summaryId = ''NULL'',
        timestamp_msg = Date 1\<rparr>)
     (Message \<lparr>id_msg = ''b'', createdAt = InvalidDate, userContent = ''when'',
        assistantContent = ''hi'', tokensCount_msg = 7, summaryId = ''NULL'',
        timestamp_msg = InvalidDate\<rparr>) = None"
proof -
  have imp: "importDataToIndexedDB example_env example_db invalid_date_document =
     (Inr (),
      \<lparr>summaryStore = [],
       messageStore =
         [\<lparr>id_msg = ''a'', createdAt = Date 2, userContent = ''two'',
           assistantContent = ''hi'', tokensCount_msg = 7, summaryId = ''NULL''\<rparr>,
          \<lparr>id_msg = ''b'', createdAt = InvalidDate, userContent = ''when'',
           assistantContent = ''hi'', tokensCount_msg = 7, summaryId = ''NULL''\<rparr>,
          \<lparr>id_msg = ''c'', createdAt = Date 1, userContent = ''one'',
           assistantContent = ''hi'', tokensCount_msg = 7, summaryId = ''NULL''\<rparr>]\<rparr>)"
    by (simp add: importDataToIndexedDB_def transaction_def convertImportedData_def
        convertMessage_def nullish_def example_env_def example_db_def
        invalid_date_document_def)
  show ?thesis
    unfolding imp
    by (simp add: getChat_def getActiveMessages_def getActiveSummaries_def
        Array_prototype_sort_def consistent_on_def compareFn_def toChatMessage_def
        ArrayTimSort_def CountAndMakeRun_def BinaryInsertionSort_def order_v8_def
        example_env_def)
qed

section \<open>Properties of sending a message\<close>

lemma compressChat_cases:
  assumes "compressChat E newId db chat = (r, db')"
  shows "(\<exists>e. r = Inl e \<and> db' = db) \<or> r = Inr ()"
proof (cases "selectMessagesForSummary chat = []")
  case True
  with assms show ?thesis by (auto simp: compressChat_def Let_def)
next
  case False
  show ?thesis
  proof (cases "compressMessages E newId (selectMessagesForSummary chat)")
    case (Inl e)
    with assms False show ?thesis by (auto simp: compressChat_def Let_def)
  next
    case (Inr summary)
    with assms False
    have "updateData E db
        (toDBSummary summary # reparented_summaries (selectMessagesForSummary chat) (id_sum summary))
        (reparented_messages (selectMessagesForSummary chat) (id_sum summary)) = (r, db')"
      by (simp add: compressChat_def replaceMessages_def Let_def)
    from updateData_cases [OF this] show ?thesis by auto
  qed
qed

lemma createCompletion_Inr:
  assumes "createCompletion E newId db chat text timestamp = (Inr newChat, db1)"
  shows "\<exists>newMessage. newChat = chat @ [Message newMessage] \<and>
     id_msg newMessage = newId \<and> createdAt newMessage = timestamp \<and>
     userContent newMessage = text \<and> summaryId newMessage = ''NULL'' \<and>
     lookup id_msg newId (messageStore db1) = Some (toDBMessage newMessage) \<and>
     messageStore db1 = put id_msg (toDBMessage newMessage) (messageStore db) \<and>
     summaryStore db1 = summaryStore db"
proof -
  from assms obtain respText tokens where
    upd: "updateData E db []
       [toDBMessage \<lparr>id_msg = newId, createdAt = timestamp, userContent = text,
          assistantContent = respText, tokensCount_msg = tokens, summaryId = ''NULL'',
          timestamp_msg = timestamp\<rparr>] = (Inr (), db1)"
    and chat: "newChat = chat @ [Message \<lparr>id_msg = newId, createdAt = timestamp, userContent = text,
          assistantContent = respText, tokensCount_msg = tokens, summaryId = ''NULL'',
          timestamp_msg = timestamp\<rparr>]"
    by (auto simp: createCompletion_def Let_def split: sum.splits list.splits prod.splits)
  let ?m = "\<lparr>id_msg = newId, createdAt = timestamp, userContent = text,
          assistantContent = respText, tokensCount_msg = tokens, summaryId = ''NULL'',
          timestamp_msg = timestamp\<rparr>"
  from updateData_cases [OF upd]
  have st: "summaryStore db1 = summaryStore db"
    "messageStore db1 = put id_msg (toDBMessage ?m) (messageStore db)"
    by (simp_all add: put_all_def)
  have "id_msg (toDBMessage ?m) = newId" by (simp add: toDBMessage_def)
  with st have "lookup id_msg newId (messageStore db1) = Some (toDBMessage ?m)"
    by (simp add: lookup_put)
  with st chat show ?thesis by (intro exI [of _ ?m]) simp
qed

text \<open>
  The example of a failing compaction: the chat has two messages of cost 4000, the send
  adds a third, the selector picks the first message, and the completion request of the
  compactor fails.
\<close>

lemma example_createCompletion:
  "createCompletion compaction_failing_env ''id1'' example_db
     [Message (example_message ''m1'' 1 4000), Message (example_message ''m2'' 2 4000)]
     ''hi'' (Date 3) =
   (Inr [Message (example_message ''m1'' 1 4000), Message (example_message ''m2'' 2 4000),
         Message \<lparr>id_msg = ''id1'', createdAt = Date 3, userContent = ''hi'',
           assistantContent = ''condensed'', tokensCount_msg = 13, summaryId = ''NULL'',
           timestamp_msg = Date 3\<rparr>],
    \<lparr>summaryStore = [],
     messageStore =
       [\<lparr>id_msg = ''id1'', createdAt = Date 3, userContent = ''hi'',
          assistantContent = ''condensed'', tokensCount_msg = 13, summaryId = ''NULL''\<rparr>,
        toDBMessage (example_message ''m1'' 1 4000),
        toDBMessage (example_message ''m2'' 2 4000)]\<rparr>)"
  by (simp add: createCompletion_def formatTimestamp_def updateData_def transaction_def nn_def Let_def
      compaction_failing_env_def example_env_def example_db_def example_message_def
      toDBMessage_def)

lemma example_compressChat_fails:
  "compressChat compaction_failing_env ''id2''
     \<lparr>summaryStore = [],
      messageStore =
       [\<lparr>id_msg = ''id1'', createdAt = Date 3, userContent = ''hi'',
          assistantContent = ''condensed'', tokensCount_msg = 13, summaryId = ''NULL''\<rparr>,
        toDBMessage (example_message ''m1'' 1 4000),
        toDBMessage (example_message ''m2'' 2 4000)]\<rparr>
     [Message (example_message ''m1'' 1 4000), Message (example_message ''m2'' 2 4000),
         Message \<lparr>id_msg = ''id1'', createdAt = Date 3, userContent = ''hi'',
           assistantContent = ''condensed'', tokensCount_msg = 13, summaryId = ''NULL'',
           timestamp_msg = Date 3\<rparr>] =
   (Inl (AxiosError ''Network Error''),
     \<lparr>summaryStore = [],
      messageStore =
       [\<lparr>id_msg = ''id1'', createdAt = Date 3, userContent = ''hi'',
          assistantContent = ''condensed'', tokensCount_msg = 13, summaryId = ''NULL''\<rparr>,
        toDBMessage (example_message ''m1'' 1 4000),
        toDBMessage (example_message ''m2'' 2 4000)]\<rparr>)"
proof -
  have sel: "selectMessagesForSummary
     [Message (example_message ''m1'' 1 4000), Message (example_message ''m2'' 2 4000),
         Message \<lparr>id_msg = ''id1'', createdAt = Date 3, userContent = ''hi'',
           assistantContent = ''condensed'', tokensCount_msg = 13, summaryId = ''NULL'',
           timestamp_msg = Date 3\<rparr>] = [Message (example_message ''m1'' 1 4000)]"
    by (simp add: select_eq_spec select_spec_def qualifying_def runSum_def slice_def
      MIN_SUMMARY_TOKENS_def upt_rec example_message_def)
  have "compressMessages compaction_failing_env ''id2'' [Message (example_message ''m1'' 1 4000)] =
     Inl (AxiosError ''Network Error'')"
    by (simp add: compressMessages_def formatTimestamp_def compaction_failing_env_def
        example_env_def example_message_def)
  with sel show ?thesis by (simp add: compressChat_def Let_def)
qed

text \<open>
  Claim C7, as amended. When createCompletion has persisted the new message and the
  compaction pass (compressChat) then fails, in the selector's slice, a provider call or
  the store write, the database stays as createCompletion left it: it still has the new
  message under its id. The failure is not caught within the pass: compressChat and the
  callback of usePostMessage both end with the error, and it is \<^verbatim>\<open>send\<close> of NewMessageView
  that catches it, prints it with \<^verbatim>\<open>console.error\<close>, shows the alert of a failed send and
  leaves the text in the input.
\<close>

theorem C7_compaction_failure_keeps_message:
  assumes "createCompletion E id1 db chat (textValue v) (Date now) = (Inr newChat, db1)"
    and "compressChat E id2 db1 newChat = (Inl e, db2)"
  shows "db2 = db1 \<and>
     (\<exists>newMessage. newChat = chat @ [Message newMessage] \<and> id_msg newMessage = id1 \<and>
        userContent newMessage = textValue v \<and>
        lookup id_msg id1 (messageStore db2) = Some (toDBMessage newMessage)) \<and>
     execute E id1 id2 db chat (textValue v) now = (Inl e, db1) \<and>
     send E id1 id2 db chat now v =
       (v\<lparr>console_error := console_error v @ [(''Failed to send message'', e)],
          alerts := alerts v + 1, isSending := False\<rparr>, db1)"
proof -
  from compressChat_cases [OF assms(2)] have db2: "db2 = db1" by simp
  from createCompletion_Inr [OF assms(1)] obtain newMessage
    where "newChat = chat @ [Message newMessage]" "id_msg newMessage = id1"
      "userContent newMessage = textValue v"
      "lookup id_msg id1 (messageStore db1) = Some (toDBMessage newMessage)"
    by blast
  with db2 have 1: "\<exists>newMessage. newChat = chat @ [Message newMessage] \<and> id_msg newMessage = id1 \<and>
        userContent newMessage = textValue v \<and>
        lookup id_msg id1 (messageStore db2) = Some (toDBMessage newMessage)"
    by blast
  from assms db2 have ex: "execute E id1 id2 db chat (textValue v) now = (Inl e, db1)"
    by (simp add: execute_def)
  then have "send E id1 id2 db chat now v =
       (v\<lparr>console_error := console_error v @ [(''Failed to send message'', e)],
          alerts := alerts v + 1, isSending := False\<rparr>, db1)"
    by (simp add: send_def)
  with db2 1 ex show ?thesis by simp
qed

theorem C7_compaction_failure_keeps_message_witness:
  "send compaction_failing_env ''id1'' ''id2'' example_db
     [Message (example_message ''m1'' 1 4000), Message (example_message ''m2'' 2 4000)] 3
     \<lparr>textValue = ''hi'', isSending = False, console_error = [], alerts = 0\<rparr> =
   (\<lparr>textValue = ''hi'', isSending = False,
     console_error = [(''Failed to send message'', AxiosError ''Network Error'')],
     alerts = 1\<rparr>,
    \<lparr>summaryStore = [],
     messageStore =
       [\<lparr>id_msg = ''id1'', createdAt = Date 3, userContent = ''hi'',
          assistantContent = ''condensed'', tokensCount_msg = 13, summaryId = ''NULL''\<rparr>,
        toDBMessage (example_message ''m1'' 1 4000),
        toDBMessage (example_message ''m2'' 2 4000)]\<rparr>)"
  using C7_compaction_failure_keeps_message
    [of compaction_failing_env "''id1''" example_db
      "[Message (example_message ''m1'' 1 4000), Message (example_message ''m2'' 2 4000)]"
      "\<lparr>textValue = ''hi'', isSending = False, console_error = [], alerts = 0\<rparr>" 3
      _ _ "''id2''"]
    example_createCompletion example_compressChat_fails
  by simp

text \<open>
  The claim C7 as the specification states it fails in its first half: here the
  completion request of the compactor fails, and the error is the outcome of compressChat
  and of the callback of usePostMessage; the pass has caught nothing. (The database has
  the new message \<open>id1\<close>, as the claim says.)
\<close>

theorem C7_not_caught_in_pass_counterexample:
  "execute compaction_failing_env ''id1'' ''id2'' example_db
     [Message (example_message ''m1'' 1 4000), Message (example_message ''m2'' 2 4000)]
     ''hi'' 3 =
   (Inl (AxiosError ''Network Error''),
    \<lparr>summaryStore = [],
     messageStore =
       [\<lparr>id_msg = ''id1'', createdAt = Date 3, userContent = ''hi'',
          assistantContent = ''condensed'', tokensCount_msg = 13, summaryId = ''NULL''\<rparr>,
        toDBMessage (example_message ''m1'' 1 4000),
        toDBMessage (example_message ''m2'' 2 4000)]\<rparr>)"
  by (simp add: execute_def example_createCompletion example_compressChat_fails)

section \<open>Properties of import and export\<close>

lemma map_insort_key:
  assumes "\<And>x. k2 (h x) = k1 x"
  shows "map h (insort_key k1 x ys) = insort_key k2 (h x) (map h ys)"
  by (induction ys) (simp_all add: assms)

lemma map_sort_key:
  assumes "\<And>x. k2 (h x) = k1 x"
  shows "map h (sort_key k1 xs) = sort_key k2 (map h xs)"
  by (induction xs) (simp_all add: map_insort_key [of k2 h k1, OF assms])

lemma traverse_map:
  "\<forall>x \<in> set xs. f x = Inr (g x) \<Longrightarrow> traverse f xs = Inr (map g xs)"
  by (induction xs) simp_all

lemma traverse_map_comp:
  "\<forall>x \<in> set xs. f (h x) = Inr (g x) \<Longrightarrow> traverse f (map h xs) = Inr (map g xs)"
  by (induction xs) simp_all

lemma traverse_set:
  "traverse f xs = Inr ys \<Longrightarrow> \<forall>y \<in> set ys. \<exists>x \<in> set xs. f x = Inr y"
proof (induction xs arbitrary: ys)
  case Nil
  then show ?case by simp
next
  case (Cons x xs)
  then show ?case by (auto split: sum.splits)
qed

lemma exportMessage_convert:
  assumes "dateParse E (created_at msg) \<noteq> InvalidDate"
  shows "exportMessage E (convertMessage E msg) = Inr (reexported_message E msg)"
  using assms
  by (cases msg; cases "dateParse E (created_at msg)"; cases "summary_id msg")
     (auto simp: exportMessage_def convertMessage_def toISOString_def reexported_message_def
        canonical_def nullish_def)

lemma exportSummary_convert:
  assumes "dateParse E (date_from sm) \<noteq> InvalidDate" "dateParse E (date_to sm) \<noteq> InvalidDate"
  shows "exportSummary E (convertSummary E sm) = Inr (reexported_summary E sm)"
  using assms
  by (cases sm; cases "dateParse E (date_from sm)"; cases "dateParse E (date_to sm)";
      cases "parent_id sm")
     (auto simp: exportSummary_def convertSummary_def toISOString_def reexported_summary_def
        canonical_def nullish_def)

lemma export_no_sentinel:
  assumes "exportDataFromIndexedDB E db = Inr out"
  shows "(\<forall>msg \<in> set (data_message out). summary_id msg \<noteq> Some ''NULL'') \<and>
         (\<forall>sm \<in> set (data_summary out). parent_id sm \<noteq> Some ''NULL'')"
proof -
  from assms obtain summaries messages
    where s: "traverse (exportSummary E) (summaryStore db) = Inr summaries"
      and m: "traverse (exportMessage E) (messageStore db) = Inr messages"
      and out: "out = \<lparr>version = ''1'', data_message = messages, data_summary = summaries\<rparr>"
    by (auto simp: exportDataFromIndexedDB_def split: option.splits sum.splits)
  have "summary_id msg \<noteq> Some ''NULL''" if "exportMessage E x = Inr msg" for x msg
    using that by (auto simp: exportMessage_def split: sum.splits if_splits)
  moreover have "parent_id sm \<noteq> Some ''NULL''" if "exportSummary E x = Inr sm" for x sm
    using that by (auto simp: exportSummary_def split: sum.splits if_splits)
  ultimately show ?thesis
    using traverse_set [OF s] traverse_set [OF m] unfolding out by fastforce
qed

lemma import_export:
  assumes nf: "\<forall>d q. fault E d q = None" and wf: "well_formed E doc"
  shows "exportDataFromIndexedDB E (snd (importDataToIndexedDB E db doc)) =
     Inr \<lparr>version = ''1'',
          data_message = map (reexported_message E) (sort_key id_im (data_message doc)),
          data_summary = map (reexported_summary E) (sort_key id_is (data_summary doc))\<rparr>"
proof -
  let ?ms = "data_message doc" and ?ss = "data_summary doc"
  obtain r db' where imp: "importDataToIndexedDB E db doc = (r, db')"
    by (cases "importDataToIndexedDB E db doc") auto
  with import_no_fault [OF nf, of db doc] have "r = Inr ()" by simp
  with import_cases [OF imp]
  have st: "summaryStore db' = put_all id_sum [] (map (convertSummary E) ?ss)"
    "messageStore db' = put_all id_msg [] (map (convertMessage E) ?ms)"
    by simp_all
  have idm: "\<And>x. id_msg (convertMessage E x) = id_im x" by (simp add: convertMessage_def)
  have ids: "\<And>x. id_sum (convertSummary E x) = id_is x" by (simp add: convertSummary_def)
  from wf have dm: "distinct (map id_msg (map (convertMessage E) ?ms))"
    and ds: "distinct (map id_sum (map (convertSummary E) ?ss))"
    by (simp_all add: well_formed_def idm ids comp_def)
  have mst: "messageStore db' = map (convertMessage E) (sort_key id_im ?ms)"
    unfolding st put_all_sort_key [OF dm] by (rule map_sort_key [symmetric]) (rule idm)
  have sst: "summaryStore db' = map (convertSummary E) (sort_key id_is ?ss)"
    unfolding st put_all_sort_key [OF ds] by (rule map_sort_key [symmetric]) (rule ids)
  from wf have "\<forall>x \<in> set (sort_key id_im ?ms).
      exportMessage E (convertMessage E x) = Inr (reexported_message E x)"
    by (auto simp: well_formed_def timestamps_def intro!: exportMessage_convert)
  then have em: "traverse (exportMessage E) (messageStore db') =
      Inr (map (reexported_message E) (sort_key id_im ?ms))"
    unfolding mst by (rule traverse_map_comp)
  from wf have "\<forall>x \<in> set (sort_key id_is ?ss).
      exportSummary E (convertSummary E x) = Inr (reexported_summary E x)"
    by (auto simp: well_formed_def timestamps_def intro!: exportSummary_convert)
  then have es: "traverse (exportSummary E) (summaryStore db') =
      Inr (map (reexported_summary E) (sort_key id_is ?ss))"
    unfolding sst by (rule traverse_map_comp)
  from nf em es imp show ?thesis
    by (simp add: exportDataFromIndexedDB_def)
qed

lemma canonical_parse:
  assumes "dates_round_trip E doc" "s \<in> set (timestamps doc)"
  shows "dateParse E (canonical E s) = dateParse E s"
  using assms by (cases "dateParse E s") (auto simp: dates_round_trip_def canonical_def)

text \<open>
  Claim C9, as amended. For a well-formed document (unique ids within each collection,
  timestamps that parse to valid dates) and a store without failing requests, the export
  after the import is the document of version 1 whose records are those of the imported
  document, in the order of their ids, with every field as it was but for two: a
  timestamp is the canonical ISO string of the date the original parses to (the same date
  again, where the runtime round-trips), and a parent reference that was the string
  \<^verbatim>\<open>"NULL"\<close> is \<^verbatim>\<open>null\<close>. No export, of any database, has \<^verbatim>\<open>"NULL"\<close> as a parent reference.
\<close>

theorem C9_import_export_round_trip:
  "((\<forall>d q. fault E d q = None) \<and> well_formed E doc \<longrightarrow>
      exportDataFromIndexedDB E (snd (importDataToIndexedDB E db doc)) =
        Inr \<lparr>version = ''1'',
             data_message = map (reexported_message E) (sort_key id_im (data_message doc)),
             data_summary = map (reexported_summary E) (sort_key id_is (data_summary doc))\<rparr>) \<and>
   reexported_message E msg =
     \<lparr>id_im = id_im msg,
      created_at = canonical E (created_at msg),
      user_content = user_content msg,
      assistant_content = assistant_content msg,
      tokens_count_im = tokens_count_im msg,
      summary_id = (if summary_id msg = Some ''NULL'' then None else summary_id msg)\<rparr> \<and>
   reexported_summary E sm =
     \<lparr>id_is = id_is sm,
      date_from = canonical E (date_from sm),
      date_to = canonical E (date_to sm),
      content_is = content_is sm,
      level_is = level_is sm,
      tokens_count_is = tokens_count_is sm,
      parent_id = (if parent_id sm = Some ''NULL'' then None else parent_id sm)\<rparr> \<and>
   (dates_round_trip E doc \<and> s \<in> set (timestamps doc) \<longrightarrow>
      dateParse E (canonical E s) = dateParse E s) \<and>
   (exportDataFromIndexedDB E db0 = Inr out \<longrightarrow>
      (\<forall>m \<in> set (data_message out). summary_id m \<noteq> Some ''NULL'') \<and>
      (\<forall>m \<in> set (data_summary out). parent_id m \<noteq> Some ''NULL''))"
proof -
  have "reexported_message E msg =
     \<lparr>id_im = id_im msg,
      created_at = canonical E (created_at msg),
      user_content = user_content msg,
      assistant_content = assistant_content msg,
      tokens_count_im = tokens_count_im msg,
      summary_id = (if summary_id msg = Some ''NULL'' then None else summary_id msg)\<rparr>"
    by (cases msg) (simp add: reexported_message_def)
  moreover have "reexported_summary E sm =
     \<lparr>id_is = id_is sm,
      date_from = canonical E (date_from sm),
      date_to = canonical E (date_to sm),
      content_is = content_is sm,
      level_is = level_is sm,
      tokens_count_is = tokens_count_is sm,
      parent_id = (if parent_id sm = Some ''NULL'' then None else parent_id sm)\<rparr>"
    by (cases sm) (simp add: reexported_summary_def)
  ultimately show ?thesis
    using import_export [of E doc db] canonical_parse [of E doc s]
      export_no_sentinel [of E db0 out]
    by blast
qed

text \<open>
  The witness: the example document, which comes back from the round trip as it is.
\<close>

theorem C9_import_export_round_trip_witness:
  "exportDataFromIndexedDB example_env
     (snd (importDataToIndexedDB example_env example_db example_document)) =
   Inr example_document \<and>
   dateParse example_env (canonical example_env ''1970-01-01T00:00:00.003Z'') = Date 3"
proof -
  have wf: "well_formed example_env example_document"
    by (simp add: well_formed_def timestamps_def example_document_def example_env_def)
  have nf: "\<forall>d q. fault example_env d q = None"
    by (simp add: example_env_def)
  have rt: "dates_round_trip example_env example_document"
    by (simp add: dates_round_trip_def timestamps_def example_document_def example_env_def)
  have ts: "''1970-01-01T00:00:00.003Z'' \<in> set (timestamps example_document)"
    by (simp add: timestamps_def example_document_def)
  note trip = C9_import_export_round_trip [of example_env example_document example_db
      "hd (data_message example_document)" "hd (data_summary example_document)"
      "''1970-01-01T00:00:00.003Z''"
      "snd (importDataToIndexedDB example_env example_db example_document)" example_document]
  from trip wf nf have "exportDataFromIndexedDB example_env
     (snd (importDataToIndexedDB example_env example_db example_document)) =
     Inr \<lparr>version = ''1'',
          data_message = map (reexported_message example_env)
            (sort_key id_im (data_message example_document)),
          data_summary = map (reexported_summary example_env)
            (sort_key id_is (data_summary example_document))\<rparr>"
    by blast
  then have 1: "exportDataFromIndexedDB example_env
     (snd (importDataToIndexedDB example_env example_db example_document)) =
     Inr example_document"
    by (simp add: example_document_def reexported_message_def reexported_summary_def
        canonical_def example_env_def)
  from trip rt ts have "dateParse example_env (canonical example_env ''1970-01-01T00:00:00.003Z'') =
      dateParse example_env ''1970-01-01T00:00:00.003Z''"
    by blast
  then have 2: "dateParse example_env (canonical example_env ''1970-01-01T00:00:00.003Z'') = Date 3"
    by (simp add: example_env_def)
  from 1 2 show ?thesis by simp
qed

text \<open>
  The claim C9 as the specification states it fails for a document that uses the string
  \<^verbatim>\<open>"NULL"\<close> as an id: the message \<open>x\<close> has the summary \<^verbatim>\<open>"NULL"\<close> as its parent, and comes
  back from the round trip without parent.
\<close>

theorem C9_sentinel_counterexample:
  "distinct (map id_im (data_message sentinel_document)) \<and>
   distinct (map id_is (data_summary sentinel_document)) \<and>
   map summary_id (data_message sentinel_document) = [Some ''NULL''] \<and>
   map id_is (data_summary sentinel_document) = [''NULL''] \<and>
   exportDataFromIndexedDB example_env
     (snd (importDataToIndexedDB example_env example_db sentinel_document)) =
   Inr \<lparr>version = ''1'',
        data_message =
          [\<lparr>id_im = ''x'', created_at = ''1970-01-01T00:00:00.001Z'', user_content = ''hello'',
            assistant_content = ''hi'', tokens_count_im = 7, summary_id = None\<rparr>],
        data_summary =
          [\<lparr>id_is = ''NULL'', date_from = ''1970-01-01T00:00:00.001Z'',
            date_to = ''1970-01-01T00:00:00.001Z'', content_is = ''before'', level_is = 1,
            tokens_count_is = 5, parent_id = None\<rparr>]\<rparr>"
  by (simp add: importDataToIndexedDB_def transaction_def convertImportedData_def convertMessage_def
      convertSummary_def nullish_def exportDataFromIndexedDB_def exportMessage_def
      exportSummary_def toISOString_def example_env_def example_db_def sentinel_document_def)

end
